theory Spec2Isabelle
  imports Complex_Main "HOL-Library.AList"
begin

section \<open>Values, documents and the collection\<close>

text \<open>
  The service is an Express application with five routes under \<open>/rooms\<close>; each handler
  awaits one operation of the mongoose model \<open>Room\<close> and answers with a status and a
  JSON body. (The repository holds two earlier variants of the file as well, with a list
  and a create route only; the theory is about the full one.) The handlers and the schema
  are translated from the source. The operations of the model (\<open>find\<close>, \<open>findById\<close>,
  \<open>save\<close>, \<open>findByIdAndUpdate\<close>, \<open>findByIdAndDelete\<close>) belong to the library; they
  are written out here on a collection that is a list of documents, as the library
  documents them for a schema like this one. The collection is always reachable: an
  operation rejects only for a failed cast, a failed validator, a duplicate key or a
  changed \<open>_id\<close>, and an update with operators for what the library or the store
  refuses in it.

  A \<open>val\<close> is a value of the running program: what \<open>req.body\<close> holds once
  \<open>express.json()\<close> has parsed the request, and what a document holds. A number of
  the program is a double: \<open>VNum q\<close> is the finite double whose value is the rational
  \<open>q\<close>, and \<open>VInfinity\<close> is one of the two infinite doubles (the flag is true for the
  positive one). The service computes with no number; it only keeps and compares them.
  The last two constructors are the values a stored document holds besides those of a
  request: an ObjectId (its 24 hexadecimal digits, in lower case) and a Date (a point of
  the clock). A JavaScript object is an association list; a key is looked up with
  \<open>map_of\<close>, so the first binding of a key is the one that counts.
\<close>

datatype val =
    VNull
  | VBool bool
  | VNum rat
  | VInfinity bool
  | VStr string
  | VArr "val list"
  | VObj "(string \<times> val) list"
  | VId string
  | VDate nat

type_synonym obj = "(string \<times> val) list"
type_synonym doc = "(string \<times> val) list"
type_synonym collection = "doc list"

section \<open>The body of a request\<close>

text \<open>
  \<open>app.use(express.json())\<close>: the body of a request is a JSON text, and the handlers
  read \<open>req.body\<close>, the value \<open>JSON.parse\<close> makes of it. A number of a JSON text is
  a decimal numeral, here the rational it denotes; the finite doubles are the rationals
  \<open>m * 2 ^ e\<close> with \<open>\<bar>m\<bar> < 2 ^ 53\<close> and \<open>- 1074 \<le> e \<le> 971\<close>. A numeral that denotes
  a double is parsed to that double. Any other numeral is rounded, to a neighbouring
  double or to an infinity (\<open>1e400\<close>); the rounding is floating-point arithmetic and is
  the parameter \<open>R\<close>. When a JSON text names a key of an object more than once, the
  last value counts, and the key stays where it first stood (the model does not move
  the keys that are array indices to the front, as JavaScript does; the order of the
  keys decides only which of several failed casts an update reports).
\<close>

datatype json =
    JNull
  | JBool bool
  | JNum rat
  | JStr string
  | JArr "json list"
  | JObj "(string \<times> json) list"


definition isDouble :: "rat \<Rightarrow> bool" where
  "isDouble q =
     (\<exists>m e. \<bar>m\<bar> < 2 ^ 53 \<and> - 1074 \<le> e \<and> e \<le> 971 \<and> q = of_int m * 2 powi e)"

text \<open>
  To decide whether a rational is a double, it is scaled by powers of two until it is
  an integer below \<open>2 ^ 53\<close> in magnitude: up to 1074 times upwards, which is of no
  use once the magnitude has reached \<open>2 ^ 53\<close>, and up to 971 times downwards, which
  is of no use once it is no integer.
\<close>

definition integral :: "rat \<Rightarrow> bool" where
  "integral x = (of_int \<lfloor>x\<rfloor> = x)"

definition mantissa :: "rat \<Rightarrow> bool" where
  "mantissa x = (integral x \<and> \<bar>x\<bar> < 2 ^ 53)"

fun scale_up :: "rat \<Rightarrow> nat \<Rightarrow> bool" where
  "scale_up x n =
     (if mantissa x then True
      else if n = 0 \<or> 2 ^ 53 \<le> \<bar>x\<bar> then False
      else scale_up (x * 2) (n - 1))"

fun scale_down :: "rat \<Rightarrow> nat \<Rightarrow> bool" where
  "scale_down x n =
     (if mantissa x then True
      else if n = 0 \<or> \<not> integral x then False
      else scale_down (x / 2) (n - 1))"

declare scale_up.simps [simp del] scale_down.simps [simp del]




section \<open>The schema\<close>

text \<open>
  \<open>roomSchema\<close> is the object given to \<open>new mongoose.Schema\<close>: per path its type and
  the options \<open>required\<close>, \<open>enum\<close>, \<open>default\<close> and \<open>unique\<close>. The second argument,
  \<open>{ timestamps: true }\<close>, adds the paths \<open>createdAt\<close> and \<open>updatedAt\<close>; every schema
  has the path \<open>_id\<close>, an ObjectId that is generated when the payload gives none, and
  the version key \<open>__v\<close>, a Number.
\<close>

datatype stype = SString | SNumber | SBoolean | SStringArray | SObjectId | SDate

record path_spec =
  schemaType :: stype
  required :: bool
  enumValues :: "string list option"
  defaultValue :: "val option"
  unique :: bool

type_synonym schema = "(string \<times> path_spec) list"

definition path :: "stype \<Rightarrow> path_spec" where
  "path t = \<lparr>schemaType = t, required = False, enumValues = None,
             defaultValue = None, unique = False\<rparr>"

definition roomSchema :: schema where
  "roomSchema =
     [(''roomNumber'', (path SString)\<lparr>required := True, unique := True\<rparr>),
      (''type'', (path SString)\<lparr>required := True,
                   enumValues := Some [''single'', ''double'', ''suite'']\<rparr>),
      (''price'', (path SNumber)\<lparr>required := True\<rparr>),
      (''isAvailable'', (path SBoolean)\<lparr>defaultValue := Some (VBool True)\<rparr>),
      (''amenities'', path SStringArray),
      (''capacity'', (path SNumber)\<lparr>required := True\<rparr>),
      (''description'', path SString),
      (''floor'', (path SNumber)\<lparr>required := True\<rparr>)]"

definition idSpec :: path_spec where
  "idSpec = (path SObjectId)\<lparr>required := True, unique := True\<rparr>"

definition documentSchema :: "string \<Rightarrow> schema" where
  "documentSchema gen =
     (''_id'', idSpec\<lparr>defaultValue := Some (VId gen)\<rparr>)
     # roomSchema
     @ [(''createdAt'', path SDate), (''updatedAt'', path SDate), (''__v'', path SNumber)]"

text \<open>An array path that has no \<open>default\<close> starts as the empty array.\<close>

definition path_default :: "path_spec \<Rightarrow> val option" where
  "path_default s =
     (case defaultValue s of
        Some v \<Rightarrow> Some v
      | None \<Rightarrow> if schemaType s = SStringArray then Some (VArr []) else None)"

section \<open>Casting a value to the type of its path\<close>

text \<open>
  A value that already has the type of its path is stored as it is, and so is \<open>null\<close>.
  A Number is a double: a \<open>VNum\<close> whose rational no double holds is no value of the
  program, and no Number.
  A string of 24 hexadecimal digits is an ObjectId. What becomes of any other value of
  a foreign type (the string \<open>"150"\<close> on a Number path, a number on a String path) is
  decided by the library's conversion functions, which the repository does not fix:
  they are the parameter \<open>F\<close> of the model, \<open>None\<close> being a CastError. The result of
  \<open>F\<close> counts only when it has the type of the path.
\<close>

type_synonym coercion = "stype \<Rightarrow> val \<Rightarrow> val option"

definition hexDigit :: "char \<Rightarrow> bool" where
  "hexDigit c = (c \<in> set ''0123456789abcdefABCDEF'')"

definition lowerHex :: "char \<Rightarrow> char" where
  "lowerHex c =
     (if c = CHR ''A'' then CHR ''a'' else if c = CHR ''B'' then CHR ''b''
      else if c = CHR ''C'' then CHR ''c'' else if c = CHR ''D'' then CHR ''d''
      else if c = CHR ''E'' then CHR ''e'' else if c = CHR ''F'' then CHR ''f''
      else c)"

definition hexString24 :: "string \<Rightarrow> bool" where
  "hexString24 s = (length s = 24 \<and> list_all hexDigit s)"

definition isObjectId :: "string \<Rightarrow> bool" where
  "isObjectId k = (length k = 24 \<and> list_all (\<lambda>c. c \<in> set ''0123456789abcdef'') k)"

fun isStr :: "val \<Rightarrow> bool" where
  "isStr (VStr s) = True"
| "isStr v = False"

fun exact :: "stype \<Rightarrow> val \<Rightarrow> bool" where
  "exact SString (VStr s) = True"
| "exact SNumber (VNum n) = isDouble n"
| "exact SNumber (VInfinity positive) = True"
| "exact SBoolean (VBool b) = True"
| "exact SStringArray (VArr vs) = list_all isStr vs"
| "exact SObjectId (VId k) = isObjectId k"
| "exact SDate (VDate t) = True"
| "exact t v = False"

definition accept :: "stype \<Rightarrow> val option \<Rightarrow> val option" where
  "accept t r =
     (case r of
        None \<Rightarrow> None
      | Some w \<Rightarrow> if w = VNull \<or> exact t w then Some w else None)"

definition cast :: "coercion \<Rightarrow> stype \<Rightarrow> val \<Rightarrow> val option" where
  "cast F t v =
     (if v = VNull \<or> exact t v then Some v
      else case (t, v) of
        (SObjectId, VStr s) \<Rightarrow>
          if hexString24 s then Some (VId (map lowerHex s)) else accept t (F t v)
      | _ \<Rightarrow> accept t (F t v))"

text \<open>
  The coercion that converts nothing: every value of a foreign type is a CastError. The
  examples below are evaluated with it, and none of them rests on a conversion: their
  payloads give values of the types of their paths, and the one foreign value, the
  identifier \<open>abc\<close>, is an ObjectId under no conversion.
\<close>

definition noCoercion :: coercion where
  "noCoercion t v = None"

section \<open>The model's operations\<close>

datatype err =
    CastError string
  | ValidationError "string list"
  | DuplicateKey string
  | ImmutableField string

subsection \<open>\<open>new Room(body)\<close>\<close>

text \<open>
  The constructor visits the paths of the schema: a path the payload names gets the cast
  of the payload's value (a failed cast is remembered and reported by \<open>save\<close>), a path
  it does not name gets its default, if it has one. Keys of the payload that are no
  path of the schema are dropped (the schema is strict). A key of the payload is read
  here as the name of a top-level path and as nothing else.
\<close>

definition init_path :: "coercion \<Rightarrow> path_spec \<Rightarrow> val option \<Rightarrow> val option" where
  "init_path F s given =
     (case given of
        None \<Rightarrow> path_default s
      | Some v \<Rightarrow> cast F (schemaType s) v)"

definition construct_doc :: "coercion \<Rightarrow> schema \<Rightarrow> obj \<Rightarrow> doc" where
  "construct_doc F sch body =
     List.map_filter
       (\<lambda>(p, s). map_option (Pair p) (init_path F s (map_of body p))) sch"

definition cast_errors :: "coercion \<Rightarrow> schema \<Rightarrow> obj \<Rightarrow> string list" where
  "cast_errors F sch body =
     map fst (filter (\<lambda>(p, s). case map_of body p of
                                  None \<Rightarrow> False
                                | Some v \<Rightarrow> cast F (schemaType s) v = None) sch)"

definition new_Room :: "coercion \<Rightarrow> string \<Rightarrow> obj \<Rightarrow> doc \<times> string list" where
  "new_Room F gen body =
     (construct_doc F (documentSchema gen) body, cast_errors F (documentSchema gen) body)"

subsection \<open>Validators\<close>

text \<open>
  \<open>required\<close> fails on a missing value, on \<open>null\<close> and, on a String path, on the empty
  string; \<open>enum\<close> fails on a value that is none of the listed strings.
\<close>

definition checkRequired :: "stype \<Rightarrow> val \<Rightarrow> bool" where
  "checkRequired t w = (w \<noteq> VNull \<and> (t = SString \<longrightarrow> w \<noteq> VStr []))"

definition value_valid :: "path_spec \<Rightarrow> val \<Rightarrow> bool" where
  "value_valid s w =
     ((required s \<longrightarrow> checkRequired (schemaType s) w) \<and>
      (case enumValues s of None \<Rightarrow> True | Some vs \<Rightarrow> w \<in> set (map VStr vs)))"

definition path_valid :: "path_spec \<Rightarrow> val option \<Rightarrow> bool" where
  "path_valid s held =
     (case held of None \<Rightarrow> \<not> required s | Some w \<Rightarrow> value_valid s w)"

definition validate :: "schema \<Rightarrow> doc \<Rightarrow> string list" where
  "validate sch d = map fst (filter (\<lambda>(p, s). \<not> path_valid s (map_of d p)) sch)"

subsection \<open>\<open>save\<close>\<close>

text \<open>
  \<open>save\<close> validates first; then the
  timestamps hook sets \<open>createdAt\<close> unless the document holds one already, and
  \<open>updatedAt\<close> to the same instant; then the document is inserted with version 0.
  The unique indexes, on \<open>_id\<close> and on \<open>roomNumber\<close>, refuse the insertion when a
  stored document holds the same value. A failed \<open>save\<close> leaves the collection as it
  was. A payload that gives \<open>null\<close> for \<open>_id\<close> is outside the model: the library
  keeps the \<open>null\<close> and the driver stores the document under an ObjectId of its own,
  whereas the model, which has no second generated identifier, rejects the document as
  one without \<open>_id\<close>. The statements below on what a Create request stores or returns
  exclude such a payload.
\<close>

definition stamp :: "nat \<Rightarrow> doc \<Rightarrow> doc" where
  "stamp now d =
     (let created = (case map_of d ''createdAt'' of
                       None \<Rightarrow> VDate now
                     | Some v \<Rightarrow> if v = VNull then VDate now else v)
      in AList.update ''updatedAt'' created (AList.update ''createdAt'' created d))"

definition version :: "doc \<Rightarrow> doc" where
  "version d = AList.update ''__v'' (VNum 0) d"

definition duplicate_keys :: "schema \<Rightarrow> collection \<Rightarrow> doc \<Rightarrow> string list" where
  "duplicate_keys sch st d =
     map fst (filter (\<lambda>(p, s). unique s \<and> list_ex (\<lambda>d0. map_of d0 p = map_of d p) st) sch)"

definition Room_save ::
  "string \<Rightarrow> nat \<Rightarrow> collection \<Rightarrow> doc \<times> string list \<Rightarrow> (err + doc) \<times> collection" where
  "Room_save gen now st new =
     (case snd new @ validate (documentSchema gen) (fst new) of
        p # ps \<Rightarrow> (Inl (ValidationError (p # ps)), st)
      | [] \<Rightarrow>
         (let d = version (stamp now (fst new)) in
          case duplicate_keys (documentSchema gen) st d of
            p # ps \<Rightarrow> (Inl (DuplicateKey p), st)
          | [] \<Rightarrow> (Inr d, st @ [d])))"

subsection \<open>Queries\<close>

text \<open>
  \<open>find\<close> returns the stored documents that hold, at every path of the query, the
  value the query gives, in the order of the collection. \<open>findById\<close> casts the
  identifier to an ObjectId first (a failed cast is a CastError, which rejects the
  promise) and returns the first document with that \<open>_id\<close>, or \<open>null\<close>.
\<close>

definition matches :: "obj \<Rightarrow> doc \<Rightarrow> bool" where
  "matches query d = list_all (\<lambda>(p, v). map_of d p = Some v) query"

definition Room_find :: "collection \<Rightarrow> obj \<Rightarrow> err + doc list" where
  "Room_find st query = Inr (filter (matches query) st)"

definition has_id :: "val \<Rightarrow> doc \<Rightarrow> bool" where
  "has_id w d = (map_of d ''_id'' = Some w)"

definition castObjectId :: "coercion \<Rightarrow> string \<Rightarrow> val option" where
  "castObjectId F ident = cast F SObjectId (VStr ident)"

definition Room_findById :: "coercion \<Rightarrow> collection \<Rightarrow> string \<Rightarrow> err + doc option" where
  "Room_findById F st ident =
     (case castObjectId F ident of
        None \<Rightarrow> Inl (CastError ''_id'')
      | Some w \<Rightarrow> Inr (List.find (has_id w) st))"

subsection \<open>\<open>findByIdAndDelete\<close> and \<open>findByIdAndUpdate\<close>\<close>

fun delete_first :: "('a \<Rightarrow> bool) \<Rightarrow> 'a list \<Rightarrow> 'a list" where
  "delete_first P [] = []"
| "delete_first P (x # xs) = (if P x then xs else x # delete_first P xs)"

fun replace_first :: "('a \<Rightarrow> bool) \<Rightarrow> 'a \<Rightarrow> 'a list \<Rightarrow> 'a list" where
  "replace_first P y [] = []"
| "replace_first P y (x # xs) = (if P x then y # xs else x # replace_first P y xs)"

definition Room_findByIdAndDelete ::
  "coercion \<Rightarrow> collection \<Rightarrow> string \<Rightarrow> (err + doc option) \<times> collection" where
  "Room_findByIdAndDelete F st ident =
     (case castObjectId F ident of
        None \<Rightarrow> (Inl (CastError ''_id''), st)
      | Some w \<Rightarrow>
         (case List.find (has_id w) st of
            None \<Rightarrow> (Inr None, st)
          | Some d \<Rightarrow> (Inr (Some d), delete_first (has_id w) st)))"

text \<open>
  \<open>findByIdAndUpdate\<close> is given \<open>req.body\<close> as it is. A key of the update that starts
  with \<open>$\<close> is an update operator, which the library executes, and a key with a dot
  addresses the inside of a value. The timestamps hook takes \<open>updatedAt\<close> out of the
  update, and \<open>createdAt\<close> when \<open>if (update.createdAt)\<close> holds, that is, unless its
  value is \<open>null\<close>, \<open>false\<close>, 0 or the empty string. An update is plain when it has
  no operator and no dotted key, so that each of its keys is the name of a top-level
  field, and gives no \<open>createdAt\<close> that the hook leaves in it.
\<close>

definition operator_key :: "string \<Rightarrow> bool" where
  "operator_key k = (case k of [] \<Rightarrow> False | c # cs \<Rightarrow> c = CHR ''$'')"

definition dotted_key :: "string \<Rightarrow> bool" where
  "dotted_key k = (CHR ''.'' \<in> set k)"

fun truthy :: "val \<Rightarrow> bool" where
  "truthy VNull = False"
| "truthy (VBool b) = b"
| "truthy (VNum q) = (q \<noteq> 0)"
| "truthy (VStr s) = (s \<noteq> [])"
| "truthy v = True"

definition plain_update :: "obj \<Rightarrow> bool" where
  "plain_update body =
     (list_all (\<lambda>(k, v). \<not> operator_key k \<and> \<not> dotted_key k) body \<and>
      (case map_of body ''createdAt'' of None \<Rightarrow> True | Some v \<Rightarrow> truthy v))"

text \<open>
  A plain update is prepared before the collection is consulted. The timestamps hook
  has taken \<open>createdAt\<close> and \<open>updatedAt\<close> out of it and sets \<open>updatedAt\<close> to the
  clock; the remaining keys that are paths of the schema (\<open>_id\<close>, the paths of
  \<open>roomSchema\<close> and \<open>__v\<close>) are cast in the order of the payload (the first failed
  cast rejects the promise) and become one \<open>$set\<close>; with \<open>runValidators: true\<close> the
  validators of each path that is set run on its new value. Only then the first document
  with the identifier is looked up: none gives \<open>null\<close>; otherwise the \<open>$set\<close> is
  applied, unless it would change \<open>_id\<close> or give a \<open>roomNumber\<close> that another
  document holds. With \<open>new: true\<close> the result is the document after the update.
\<close>

definition updateSchema :: schema where
  "updateSchema = (''_id'', path SObjectId) # roomSchema @ [(''__v'', path SNumber)]"

definition update_cast_errors :: "coercion \<Rightarrow> obj \<Rightarrow> string list" where
  "update_cast_errors F body =
     map fst (filter (\<lambda>(k, v). map_of body k = Some v \<and>
                               (case map_of updateSchema k of
                                  None \<Rightarrow> False
                                | Some s \<Rightarrow> cast F (schemaType s) v = None)) body)"

definition castUpdate :: "coercion \<Rightarrow> obj \<Rightarrow> obj" where
  "castUpdate F body =
     List.map_filter
       (\<lambda>(p, s). case map_of body p of
                    None \<Rightarrow> None
                  | Some v \<Rightarrow> map_option (Pair p) (cast F (schemaType s) v)) updateSchema"

definition updateValidators :: "obj \<Rightarrow> string list" where
  "updateValidators sets =
     map fst (filter (\<lambda>(p, s). case map_of sets p of
                                  None \<Rightarrow> False
                                | Some w \<Rightarrow> \<not> value_valid s w) updateSchema)"

definition update_conflicts :: "obj \<Rightarrow> collection \<Rightarrow> doc \<Rightarrow> string list" where
  "update_conflicts sets others d =
     map fst (filter (\<lambda>(p, s). unique s \<and> map_of sets p \<noteq> None \<and>
                               list_ex (\<lambda>d0. map_of d0 p = map_of d p) others) roomSchema)"

definition apply_update :: "nat \<Rightarrow> obj \<Rightarrow> doc \<Rightarrow> doc" where
  "apply_update now sets d = AList.update ''updatedAt'' (VDate now) (AList.merge d sets)"

definition plainUpdate ::
  "coercion \<Rightarrow> nat \<Rightarrow> collection \<Rightarrow> val \<Rightarrow> obj \<Rightarrow> (err + doc option) \<times> collection" where
  "plainUpdate F now st w body =
     (case update_cast_errors F body of
        p # ps \<Rightarrow> (Inl (CastError p), st)
      | [] \<Rightarrow>
         (let sets = castUpdate F body in
          case updateValidators sets of
            p # ps \<Rightarrow> (Inl (ValidationError (p # ps)), st)
          | [] \<Rightarrow>
             (case List.find (has_id w) st of
                None \<Rightarrow> (Inr None, st)
              | Some d \<Rightarrow>
                 (let d' = apply_update now sets d in
                  if \<not> has_id w d' then (Inl (ImmutableField ''_id''), st)
                  else case update_conflicts sets (delete_first (has_id w) st) d' of
                         p # ps \<Rightarrow> (Inl (DuplicateKey p), st)
                       | [] \<Rightarrow> (Inr (Some d'), replace_first (has_id w) d' st)))))"

text \<open>
  What the library and the store make of an update that is not plain (which operators
  there are, how their arguments are cast and validated, what each does to a document)
  is not fixed by the repository: it is the parameter \<open>U\<close> of the model. \<open>U\<close> either
  rejects the update before the collection is consulted, or gives what the update makes
  of the document it is applied to: an error of the store, or the document afterwards.
  Whatever the update is, the store keeps its two indexes: it refuses an update that
  would change \<open>_id\<close>, and one that would change \<open>roomNumber\<close> to a value another
  document holds.
\<close>

type_synonym operators = "obj \<Rightarrow> err + (doc \<Rightarrow> err + doc)"

definition operatorUpdate ::
  "operators \<Rightarrow> collection \<Rightarrow> val \<Rightarrow> obj \<Rightarrow> (err + doc option) \<times> collection" where
  "operatorUpdate U st w body =
     (case U body of
        Inl e \<Rightarrow> (Inl e, st)
      | Inr change \<Rightarrow>
         (case List.find (has_id w) st of
            None \<Rightarrow> (Inr None, st)
          | Some d \<Rightarrow>
             (case change d of
                Inl e \<Rightarrow> (Inl e, st)
              | Inr d' \<Rightarrow>
                 if \<not> has_id w d' then (Inl (ImmutableField ''_id''), st)
                 else if map_of d' ''roomNumber'' \<noteq> map_of d ''roomNumber'' \<and>
                         list_ex (\<lambda>d0. map_of d0 ''roomNumber'' = map_of d' ''roomNumber'')
                           (delete_first (has_id w) st)
                 then (Inl (DuplicateKey ''roomNumber''), st)
                 else (Inr (Some d'), replace_first (has_id w) d' st))))"

text \<open>
  \<open>findByIdAndUpdate\<close> casts the identifier first (a failed cast rejects the promise).
\<close>

definition Room_findByIdAndUpdate ::
  "coercion \<Rightarrow> operators \<Rightarrow> nat \<Rightarrow> collection \<Rightarrow> string \<Rightarrow> obj \<Rightarrow>
     (err + doc option) \<times> collection" where
  "Room_findByIdAndUpdate F U now st ident body =
     (case castObjectId F ident of
        None \<Rightarrow> (Inl (CastError ''_id''), st)
      | Some w \<Rightarrow>
         if plain_update body then plainUpdate F now st w body
         else operatorUpdate U st w body)"

text \<open>
  The operators of the examples below, whose updates are all plain: every update that
  is not plain is rejected.
\<close>

definition noOperators :: operators where
  "noOperators body = Inl (CastError ''$'')"

section \<open>The route handlers\<close>

text \<open>
  A response is the status given to \<open>res.status\<close> and the object given to \<open>res.json\<close>:
  an array of documents, one document, \<open>{ message }\<close>, \<open>{ message, error }\<close> or
  \<open>{ message, room }\<close>. Each handler awaits one operation of the model inside
  \<open>try\<close>; its \<open>catch\<close> answers 500. The handlers that write return the collection too.
  The clock and the ObjectId generated for a new document are inputs.
\<close>

datatype reply =
    Rooms "doc list"
  | Room doc
  | Message string
  | Failure string err
  | Deleted string doc

record response =
  status :: nat
  json :: reply

fun message :: "reply \<Rightarrow> string option" where
  "message (Message m) = Some m"
| "message (Failure m e) = Some m"
| "message (Deleted m d) = Some m"
| "message r = None"

text \<open>
  \<open>app.get('/rooms')\<close>. The two query parameters are strings when they are present;
  \<open>if (type)\<close> is false for the absent parameter and for the empty string.
\<close>

definition get_rooms :: "collection \<Rightarrow> string option \<Rightarrow> string option \<Rightarrow> response" where
  "get_rooms st available type' =
     (let query =
        (case available of
           None \<Rightarrow> []
         | Some a \<Rightarrow> [(''isAvailable'', VBool (a = ''true''))]) @
        (case type' of
           None \<Rightarrow> []
         | Some t \<Rightarrow> if t = [] then [] else [(''type'', VStr t)])
      in case Room_find st query of
           Inr rooms \<Rightarrow> \<lparr>status = 200, json = Rooms rooms\<rparr>
         | Inl error \<Rightarrow> \<lparr>status = 500, json = Failure ''Error retrieving rooms'' error\<rparr>)"

text \<open>\<open>app.get('/rooms/:id')\<close>\<close>

definition get_room :: "coercion \<Rightarrow> collection \<Rightarrow> string \<Rightarrow> response" where
  "get_room F st ident =
     (case Room_findById F st ident of
        Inr room \<Rightarrow>
          (case room of
             None \<Rightarrow> \<lparr>status = 404, json = Message ''Room not found''\<rparr>
           | Some r \<Rightarrow> \<lparr>status = 200, json = Room r\<rparr>)
      | Inl error \<Rightarrow> \<lparr>status = 500, json = Failure ''Error retrieving room'' error\<rparr>)"

text \<open>\<open>app.post('/rooms')\<close>\<close>

definition post_room ::
  "coercion \<Rightarrow> string \<Rightarrow> nat \<Rightarrow> collection \<Rightarrow> obj \<Rightarrow> response \<times> collection" where
  "post_room F gen now st body =
     (let newRoom = new_Room F gen body in
      case Room_save gen now st newRoom of
        (Inr saved, st') \<Rightarrow> (\<lparr>status = 201, json = Room saved\<rparr>, st')
      | (Inl error, st') \<Rightarrow>
          (\<lparr>status = 500, json = Failure ''Error creating room'' error\<rparr>, st'))"

text \<open>\<open>app.put('/rooms/:id')\<close>\<close>

definition put_room ::
  "coercion \<Rightarrow> operators \<Rightarrow> nat \<Rightarrow> collection \<Rightarrow> string \<Rightarrow> obj \<Rightarrow>
     response \<times> collection" where
  "put_room F U now st ident body =
     (case Room_findByIdAndUpdate F U now st ident body of
        (Inr room, st') \<Rightarrow>
          (case room of
             None \<Rightarrow> (\<lparr>status = 404, json = Message ''Room not found''\<rparr>, st')
           | Some r \<Rightarrow> (\<lparr>status = 200, json = Room r\<rparr>, st'))
      | (Inl error, st') \<Rightarrow>
          (\<lparr>status = 500, json = Failure ''Error updating room'' error\<rparr>, st'))"

text \<open>\<open>app.delete('/rooms/:id')\<close>\<close>

definition delete_room ::
  "coercion \<Rightarrow> collection \<Rightarrow> string \<Rightarrow> response \<times> collection" where
  "delete_room F st ident =
     (case Room_findByIdAndDelete F st ident of
        (Inr room, st') \<Rightarrow>
          (case room of
             None \<Rightarrow> (\<lparr>status = 404, json = Message ''Room not found''\<rparr>, st')
           | Some r \<Rightarrow>
               (\<lparr>status = 200, json = Deleted ''Room deleted successfully'' r\<rparr>, st'))
      | (Inl error, st') \<Rightarrow>
          (\<lparr>status = 500, json = Failure ''Error deleting room'' error\<rparr>, st'))"

section \<open>The vocabulary of the statements\<close>

text \<open>
  What the statements below say of a request or of the collection, written without the
  operations of the model.
\<close>

subsection \<open>The collection\<close>

definition unique_ids :: "collection \<Rightarrow> bool" where
  "unique_ids st = distinct (map (\<lambda>d. map_of d ''_id'') st)"

definition wf_store :: "collection \<Rightarrow> bool" where
  "wf_store st = (unique_ids st \<and> (\<forall>d\<in>set st. \<exists>k. map_of d ''_id'' = Some (VId k)))"

subsection \<open>The filter of a List request\<close>

definition available_selects :: "string \<Rightarrow> doc \<Rightarrow> bool" where
  "available_selects a d =
     (if a = ''true'' then map_of d ''isAvailable'' = Some (VBool True)
      else map_of d ''isAvailable'' = Some (VBool False))"

definition type_selects :: "string \<Rightarrow> doc \<Rightarrow> bool" where
  "type_selects t d = (t = [] \<or> map_of d ''type'' = Some (VStr t))"

definition selected :: "string option \<Rightarrow> string option \<Rightarrow> doc \<Rightarrow> bool" where
  "selected available type' d =
     ((case available of None \<Rightarrow> True | Some a \<Rightarrow> available_selects a d) \<and>
      (case type' of None \<Rightarrow> True | Some t \<Rightarrow> type_selects t d))"

subsection \<open>The payload of a Create request\<close>

text \<open>
  A required field is present when the payload names it and its value casts to a value
  that \<open>required\<close> accepts. The constraints of the schema: every value given for a path
  casts; a value given for a path with \<open>enum\<close> casts to one of the listed strings; and no
  stored document holds the payload's \<open>roomNumber\<close> or the \<open>_id\<close> of the new document,
  which is the payload's \<open>_id\<close> or else the generated ObjectId. A payload violates the
  schema when one of the three fails; it satisfies the schema when all three hold and
  the new document's \<open>_id\<close> is an ObjectId (not \<open>null\<close>).
\<close>

definition has_required :: "coercion \<Rightarrow> obj \<Rightarrow> bool" where
  "has_required F body =
     (\<forall>(p, s)\<in>set roomSchema. required s \<longrightarrow>
        (\<exists>v w. map_of body p = Some v \<and> cast F (schemaType s) v = Some w \<and>
               checkRequired (schemaType s) w))"

definition castable :: "coercion \<Rightarrow> schema \<Rightarrow> obj \<Rightarrow> bool" where
  "castable F sch body =
     (\<forall>(p, s)\<in>set sch. \<forall>v. map_of body p = Some v \<longrightarrow> cast F (schemaType s) v \<noteq> None)"

definition enum_ok :: "coercion \<Rightarrow> obj \<Rightarrow> bool" where
  "enum_ok F body =
     (\<forall>(p, s)\<in>set roomSchema. \<forall>vs v w.
        enumValues s = Some vs \<and> map_of body p = Some v \<and> cast F (schemaType s) v = Some w
        \<longrightarrow> w \<in> VStr ` set vs)"

definition new_id :: "coercion \<Rightarrow> string \<Rightarrow> obj \<Rightarrow> val option" where
  "new_id F gen body =
     (case map_of body ''_id'' of
        None \<Rightarrow> Some (VId gen)
      | Some v \<Rightarrow> cast F SObjectId v)"

definition unique_ok :: "coercion \<Rightarrow> string \<Rightarrow> collection \<Rightarrow> obj \<Rightarrow> bool" where
  "unique_ok F gen st body =
     ((\<forall>d0\<in>set st. map_of d0 ''_id'' \<noteq> new_id F gen body) \<and>
      (\<forall>v. map_of body ''roomNumber'' = Some v \<longrightarrow>
           (\<forall>d0\<in>set st. map_of d0 ''roomNumber'' \<noteq> cast F SString v)))"

definition violates_schema :: "coercion \<Rightarrow> string \<Rightarrow> collection \<Rightarrow> obj \<Rightarrow> bool" where
  "violates_schema F gen st body =
     (\<not> castable F (documentSchema gen) body \<or> \<not> enum_ok F body \<or>
      \<not> unique_ok F gen st body)"

definition satisfies_schema :: "coercion \<Rightarrow> string \<Rightarrow> collection \<Rightarrow> obj \<Rightarrow> bool" where
  "satisfies_schema F gen st body =
     (castable F (documentSchema gen) body \<and> enum_ok F body \<and>
      (\<exists>k. new_id F gen body = Some (VId k)) \<and> unique_ok F gen st body)"

subsection \<open>The payload as it was sent\<close>


fun isJStr :: "json \<Rightarrow> bool" where
  "isJStr (JStr s) = True"
| "isJStr j = False"

fun sent_as :: "stype \<Rightarrow> json \<Rightarrow> bool" where
  "sent_as t JNull = True"
| "sent_as SString (JStr s) = True"
| "sent_as SNumber (JNum q) = isDouble q"
| "sent_as SBoolean (JBool b) = True"
| "sent_as SStringArray (JArr js) = list_all isJStr js"
| "sent_as t j = False"


subsection \<open>The payload of an Update request\<close>

text \<open>
  The payload of an update passes when every value it gives for \<open>_id\<close> or for a path of
  \<open>roomSchema\<close> casts, and the cast value passes the validators of its path (the ones
  Create runs on the same path). The update applies to the document with identifier
  \<open>w\<close> when it leaves \<open>_id\<close> as it is and gives no \<open>roomNumber\<close> that another document
  holds.
\<close>

definition update_valid :: "coercion \<Rightarrow> obj \<Rightarrow> bool" where
  "update_valid F body =
     (\<forall>(p, s)\<in>set updateSchema. \<forall>v w.
        map_of body p = Some v \<and> cast F (schemaType s) v = Some w \<longrightarrow> value_valid s w)"

definition update_passes :: "coercion \<Rightarrow> obj \<Rightarrow> bool" where
  "update_passes F body = (castable F updateSchema body \<and> update_valid F body)"


subsection \<open>Example requests\<close>

definition exampleId :: string where
  "exampleId = ''64f74c8e524a1c0012a34567''"

definition otherId :: string where
  "otherId = ''64f74c8e524a1c0012a34568''"

definition examplePayload :: obj where
  "examplePayload =
     [(''roomNumber'', VStr ''C400''), (''type'', VStr ''double''), (''price'', VNum 150),
      (''amenities'', VArr [VStr ''TV'', VStr ''WiFi'']), (''capacity'', VNum 2),
      (''floor'', VNum 4)]"



text \<open>The document that \<open>examplePayload\<close> creates at time 1 with \<open>exampleId\<close> generated.\<close>

definition exampleRoom :: doc where
  "exampleRoom =
     [(''_id'', VId ''64f74c8e524a1c0012a34567''), (''roomNumber'', VStr ''C400''),
      (''type'', VStr ''double''), (''price'', VNum 150), (''isAvailable'', VBool True),
      (''amenities'', VArr [VStr ''TV'', VStr ''WiFi'']), (''capacity'', VNum 2),
      (''floor'', VNum 4), (''createdAt'', VDate 1), (''updatedAt'', VDate 1),
      (''__v'', VNum 0)]"

definition thirdId :: string where
  "thirdId = ''64f74c8e524a1c0012a34569''"

text \<open>A payload that gives its own \<open>_id\<close>, and the document it creates at time 2.\<close>

definition bookedPayload :: obj where
  "bookedPayload =
     [(''_id'', VStr ''64f74c8e524a1c0012a34568''), (''roomNumber'', VStr ''S12''),
      (''type'', VStr ''suite''), (''price'', VNum 320), (''isAvailable'', VBool False),
      (''capacity'', VNum 4), (''floor'', VNum 1)]"

definition bookedRoom :: doc where
  "bookedRoom =
     [(''_id'', VId ''64f74c8e524a1c0012a34568''), (''roomNumber'', VStr ''S12''),
      (''type'', VStr ''suite''), (''price'', VNum 320), (''isAvailable'', VBool False),
      (''amenities'', VArr []), (''capacity'', VNum 4),
      (''floor'', VNum 1), (''createdAt'', VDate 2), (''updatedAt'', VDate 2),
      (''__v'', VNum 0)]"

text \<open>\<open>exampleRoom\<close> after the update \<open>{ price: 200 }\<close> at time 5.\<close>

definition repricedRoom :: doc where
  "repricedRoom =
     [(''_id'', VId ''64f74c8e524a1c0012a34567''), (''roomNumber'', VStr ''C400''),
      (''type'', VStr ''double''), (''price'', VNum 200), (''isAvailable'', VBool True),
      (''amenities'', VArr [VStr ''TV'', VStr ''WiFi'']), (''capacity'', VNum 2),
      (''floor'', VNum 4), (''createdAt'', VDate 1), (''updatedAt'', VDate 5),
      (''__v'', VNum 0)]"

section \<open>Lemmas about the model\<close>

subsection \<open>Looking up, deleting and replacing the first match\<close>

lemma find_has_id_None: "(\<forall>d\<in>set st. \<not> has_id w d) \<Longrightarrow> List.find (has_id w) st = None"
  by (simp add: find_None_iff)

lemma find_has_id_Some:
  "\<exists>d\<in>set st. has_id w d \<Longrightarrow> \<exists>d\<in>set st. has_id w d \<and> List.find (has_id w) st = Some d"
  by (induction st) auto

lemma find_unique:
  "distinct (map f xs) \<Longrightarrow> d \<in> set xs \<Longrightarrow> f d = k \<Longrightarrow> List.find (\<lambda>x. f x = k) xs = Some d"
  by (induction xs) (auto simp: rev_image_eqI)

lemma delete_first_unique:
  "distinct (map f xs) \<Longrightarrow> d \<in> set xs \<Longrightarrow> f d = k \<Longrightarrow>
     delete_first (\<lambda>x. f x = k) xs = filter (\<lambda>x. x \<noteq> d) xs"
proof (induction xs)
  case Nil
  then show ?case by simp
next
  case (Cons x xs)
  show ?case
  proof (cases "x = d")
    case True
    with Cons.prems have "d \<notin> set xs" by auto
    then have "filter (\<lambda>x. x \<noteq> d) xs = xs" by (auto simp: filter_id_conv)
    with True Cons.prems show ?thesis by simp
  next
    case False
    with Cons.prems have "f x \<noteq> k" by (auto simp: rev_image_eqI)
    with False Cons show ?thesis by auto
  qed
qed

lemma has_id_eq: "has_id w = (\<lambda>d. map_of d ''_id'' = Some w)"
  by (simp add: has_id_def fun_eq_iff)

lemma unique_find:
  "unique_ids st \<Longrightarrow> d \<in> set st \<Longrightarrow> has_id w d \<Longrightarrow> List.find (has_id w) st = Some d"
  unfolding unique_ids_def has_id_eq by (rule find_unique) (auto simp: has_id_def)

lemma unique_delete_first:
  "unique_ids st \<Longrightarrow> d \<in> set st \<Longrightarrow> has_id w d \<Longrightarrow>
     delete_first (has_id w) st = filter (\<lambda>x. x \<noteq> d) st"
  unfolding unique_ids_def has_id_eq by (rule delete_first_unique) (auto simp: has_id_def)

lemma unique_others:
  "unique_ids st \<Longrightarrow> d \<in> set st \<Longrightarrow> has_id w d \<Longrightarrow> x \<in> set st \<Longrightarrow> x \<noteq> d \<Longrightarrow> \<not> has_id w x"
  unfolding unique_ids_def has_id_def
  by (metis distinct_map inj_onD)

subsection \<open>The query of a List request\<close>

lemma matches_query:
  "matches ((case available of None \<Rightarrow> [] | Some a \<Rightarrow> [(''isAvailable'', VBool (a = ''true''))]) @
            (case type' of None \<Rightarrow> [] | Some t \<Rightarrow> if t = [] then [] else [(''type'', VStr t)])) d
   = selected available type' d"
  by (auto simp: matches_def selected_def available_selects_def type_selects_def
           split: option.splits)

lemma get_rooms_selected:
  "get_rooms st available type' =
     \<lparr>status = 200, json = Rooms (filter (selected available type') st)\<rparr>"
  unfolding get_rooms_def Room_find_def Let_def matches_query by simp

subsection \<open>The body of a request\<close>



lemma integral_iff: "integral x \<longleftrightarrow> (\<exists>m. x = of_int m)"
  unfolding integral_def by (metis floor_of_int)

lemma mantissa_iff: "mantissa x \<longleftrightarrow> (\<exists>m. \<bar>m\<bar> < 2 ^ 53 \<and> x = of_int m)"
proof
  assume "mantissa x"
  then obtain m where m: "x = of_int m" and b: "\<bar>x\<bar> < 2 ^ 53"
    unfolding mantissa_def integral_iff by blast
  from b have "(of_int \<bar>m\<bar> :: rat) < of_int (2 ^ 53)" unfolding m by simp
  then have "\<bar>m\<bar> < 2 ^ 53" by (simp only: of_int_less_iff)
  with m show "\<exists>m. \<bar>m\<bar> < 2 ^ 53 \<and> x = of_int m" by blast
next
  assume "\<exists>m. \<bar>m\<bar> < 2 ^ 53 \<and> x = of_int m"
  then obtain m where m: "\<bar>m\<bar> < 2 ^ 53" "x = of_int m" by blast
  from m(1) have "(of_int \<bar>m\<bar> :: rat) < of_int (2 ^ 53)" by (simp only: of_int_less_iff)
  with m(2) show "mantissa x"
    unfolding mantissa_def integral_iff by auto
qed

lemma too_big: "2 ^ 53 \<le> \<bar>x\<bar> \<Longrightarrow> \<not> mantissa (x * 2 ^ k)"
proof
  assume b: "2 ^ 53 \<le> \<bar>x\<bar>" and "mantissa (x * 2 ^ k)"
  then have "\<bar>x\<bar> * 2 ^ k < 2 ^ 53" by (simp add: mantissa_def abs_mult)
  moreover have "\<bar>x\<bar> * 1 \<le> \<bar>x\<bar> * 2 ^ k" by (intro mult_left_mono) simp_all
  ultimately show False using b by simp
qed

lemma not_integral: "\<not> integral x \<Longrightarrow> \<not> mantissa (x / 2 ^ k)"
proof
  assume n: "\<not> integral x" and "mantissa (x / 2 ^ k)"
  then obtain m where "x / 2 ^ k = of_int m" unfolding mantissa_def integral_iff by blast
  then have "x = of_int (m * 2 ^ k)" by (simp add: field_simps)
  with n show False unfolding integral_iff by blast
qed

lemma exists_Suc: "(\<exists>k\<le>Suc n. P k) \<longleftrightarrow> P 0 \<or> (\<exists>k\<le>n. P (Suc k))"
proof
  assume "\<exists>k\<le>Suc n. P k"
  then obtain k where k: "k \<le> Suc n" "P k" by blast
  then show "P 0 \<or> (\<exists>k\<le>n. P (Suc k))" by (cases k) auto
next
  assume "P 0 \<or> (\<exists>k\<le>n. P (Suc k))"
  then show "\<exists>k\<le>Suc n. P k" by auto
qed

lemma scale_up_iff: "scale_up x n \<longleftrightarrow> (\<exists>k\<le>n. mantissa (x * 2 ^ k))"
proof (induction n arbitrary: x)
  case 0
  then show ?case by (simp add: scale_up.simps)
next
  case (Suc n)
  have "(\<exists>k\<le>Suc n. mantissa (x * 2 ^ k)) \<longleftrightarrow> mantissa x \<or> (\<exists>k\<le>n. mantissa (x * 2 * 2 ^ k))"
    by (simp add: exists_Suc[where P="\<lambda>k. mantissa (x * 2 ^ k)"] mult.assoc)
  with Suc[of "x * 2"] too_big[of x] show ?case
    by (subst scale_up.simps) auto
qed

lemma scale_down_iff: "scale_down x n \<longleftrightarrow> (\<exists>k\<le>n. mantissa (x / 2 ^ k))"
proof (induction n arbitrary: x)
  case 0
  then show ?case by (simp add: scale_down.simps)
next
  case (Suc n)
  have "(\<exists>k\<le>Suc n. mantissa (x / 2 ^ k)) \<longleftrightarrow> mantissa x \<or> (\<exists>k\<le>n. mantissa (x / 2 / 2 ^ k))"
    by (simp add: exists_Suc[where P="\<lambda>k. mantissa (x / 2 ^ k)"])
  with Suc[of "x / 2"] not_integral[of x] show ?case
    by (subst scale_down.simps) auto
qed

lemma isDouble_code [code]:
  "isDouble q = (if scale_up q 1074 then True else scale_down (q / 2) 970)"
proof -
  have "isDouble q \<longleftrightarrow> (\<exists>e. - 1074 \<le> e \<and> e \<le> 971 \<and> mantissa (q * 2 powi (- e)))"
  proof
    assume "isDouble q"
    then obtain m e where me: "\<bar>m\<bar> < 2 ^ 53" "- 1074 \<le> e" "e \<le> 971" "q = of_int m * 2 powi e"
      unfolding isDouble_def by blast
    then have "q * 2 powi (- e) = of_int m"
      by (simp add: power_int_minus field_simps)
    with me show "\<exists>e. - 1074 \<le> e \<and> e \<le> 971 \<and> mantissa (q * 2 powi (- e))"
      unfolding mantissa_iff by blast
  next
    assume "\<exists>e. - 1074 \<le> e \<and> e \<le> 971 \<and> mantissa (q * 2 powi (- e))"
    then obtain e m where e: "- 1074 \<le> e" "e \<le> 971" and m: "\<bar>m\<bar> < 2 ^ 53"
      "q * 2 powi (- e) = of_int m"
      unfolding mantissa_iff by blast
    from m(2) have "q = of_int m * 2 powi e"
      by (simp add: power_int_minus field_simps)
    with e m(1) show "isDouble q" unfolding isDouble_def by blast
  qed
  also have "\<dots> \<longleftrightarrow> (\<exists>k\<le>1074. mantissa (q * 2 ^ k)) \<or> (\<exists>k\<le>970. mantissa (q / 2 / 2 ^ k))"
  proof
    assume "\<exists>e. - 1074 \<le> e \<and> e \<le> 971 \<and> mantissa (q * 2 powi (- e))"
    then obtain e where e: "- 1074 \<le> e" "e \<le> 971" "mantissa (q * 2 powi (- e))" by blast
    show "(\<exists>k\<le>1074. mantissa (q * 2 ^ k)) \<or> (\<exists>k\<le>970. mantissa (q / 2 / 2 ^ k))"
    proof (cases "e \<le> 0")
      case True
      with e have "nat (- e) \<le> 1074" "mantissa (q * 2 ^ nat (- e))"
        by (simp_all add: power_int_def)
      then show ?thesis by blast
    next
      case False
      then have "2 powi (- e) = (1 :: rat) / 2 / 2 ^ nat (e - 1)"
        by (simp add: power_int_def field_simps flip: power_Suc)
      with False e have "nat (e - 1) \<le> 970" "mantissa (q / 2 / 2 ^ nat (e - 1))"
        by simp_all
      then show ?thesis by blast
    qed
  next
    assume "(\<exists>k\<le>1074. mantissa (q * 2 ^ k)) \<or> (\<exists>k\<le>970. mantissa (q / 2 / 2 ^ k))"
    then show "\<exists>e. - 1074 \<le> e \<and> e \<le> 971 \<and> mantissa (q * 2 powi (- e))"
    proof
      assume "\<exists>k\<le>1074. mantissa (q * 2 ^ k)"
      then obtain k where k: "k \<le> 1074" "mantissa (q * 2 ^ k)" by blast
      then have "- 1074 \<le> - int k" "- int k \<le> 971" "mantissa (q * 2 powi (- (- int k)))"
        by (simp_all add: power_int_def)
      then show ?thesis by blast
    next
      assume "\<exists>k\<le>970. mantissa (q / 2 / 2 ^ k)"
      then obtain k where k: "k \<le> 970" "mantissa (q / 2 / 2 ^ k)" by blast
      have "2 powi (- (int k + 1)) = (1 :: rat) / 2 / 2 ^ k"
        by (simp add: power_int_def field_simps nat_add_distrib)
      with k have "- 1074 \<le> int k + 1" "int k + 1 \<le> 971" "mantissa (q * 2 powi (- (int k + 1)))"
        by simp_all
      then show ?thesis by blast
    qed
  qed
  finally show ?thesis
    unfolding scale_up_iff scale_down_iff by auto
qed



text \<open>No double holds an odd integer above \<open>2 ^ 53\<close>, such as 9007199254740993.\<close>

lemma odd_not_double:
  fixes n :: int
  assumes "odd n" and "2 ^ 53 < n"
  shows "\<not> isDouble (of_int n)"
proof
  assume "isDouble (of_int n)"
  then obtain m e where m: "\<bar>m\<bar> < 2 ^ 53" and q: "(of_int n :: rat) = of_int m * 2 powi e"
    unfolding isDouble_def by blast
  show False
  proof (cases "0 \<le> e")
    case True
    with q have "(of_int n :: rat) = of_int (m * 2 ^ nat e)"
      by (simp add: power_int_def)
    then have eq: "n = m * 2 ^ nat e" by (simp only: of_int_eq_iff)
    show False
    proof (cases "nat e = 0")
      case True
      with eq m assms(2) show False by simp
    next
      case False
      then have "even (m * 2 ^ nat e)" by simp
      with eq assms(1) show False by simp
    qed
  next
    case False
    with q have "(of_int n :: rat) * 2 ^ nat (- e) = of_int m"
      by (simp add: power_int_def field_simps)
    then have "(of_int (n * 2 ^ nat (- e)) :: rat) = of_int m" by simp
    then have eq: "n * 2 ^ nat (- e) = m" by (simp only: of_int_eq_iff)
    have "(1::int) \<le> 2 ^ nat (- e)" by simp
    with assms(2) have "n * 1 \<le> n * 2 ^ nat (- e)"
      by (intro mult_left_mono) simp_all
    with eq m assms(2) show False by simp
  qed
qed

lemma big_numeral_not_sent_as: "\<not> sent_as SNumber (JNum 9007199254740993)"
  using odd_not_double[of 9007199254740993] by simp



subsection \<open>Constructing and saving a document\<close>

lemma map_of_map_filter:
  "distinct (map fst sch) \<Longrightarrow>
   map_of (List.map_filter (\<lambda>(p, s). map_option (Pair p) (f p s)) sch) q =
   (case map_of sch q of None \<Rightarrow> None | Some s \<Rightarrow> f q s)"
proof (induction sch)
  case Nil
  then show ?case by (simp add: List.map_filter_simps)
next
  case (Cons a sch)
  obtain p s where a: "a = (p, s)" by (cases a)
  from Cons.prems a have notin: "p \<notin> fst ` set sch" by simp
  then have none: "map_of sch p = None" by (simp add: map_of_eq_None_iff)
  from Cons have IH: "map_of (List.map_filter (\<lambda>(p, s). map_option (Pair p) (f p s)) sch) q =
   (case map_of sch q of None \<Rightarrow> None | Some s \<Rightarrow> f q s)" by simp
  show ?case
  proof (cases "q = p")
    case True
    with a none IH show ?thesis
      by (cases "f p s") (simp_all add: List.map_filter_simps)
  next
    case False
    with a IH show ?thesis
      by (cases "f p s") (simp_all add: List.map_filter_simps)
  qed
qed

lemma distinct_documentSchema: "distinct (map fst (documentSchema gen))"
  by (simp add: documentSchema_def roomSchema_def)

lemma distinct_updateSchema: "distinct (map fst updateSchema)"
  by (simp add: updateSchema_def roomSchema_def)

lemma map_of_construct:
  "distinct (map fst sch) \<Longrightarrow>
   map_of (construct_doc F sch body) q =
     (case map_of sch q of None \<Rightarrow> None | Some s \<Rightarrow> init_path F s (map_of body q))"
  unfolding construct_doc_def by (rule map_of_map_filter)

lemma map_of_castUpdate:
  "map_of (castUpdate F body) q =
     (case map_of updateSchema q of
        None \<Rightarrow> None
      | Some s \<Rightarrow> (case map_of body q of None \<Rightarrow> None | Some v \<Rightarrow> cast F (schemaType s) v))"
proof -
  have "castUpdate F body = List.map_filter (\<lambda>(p, s). map_option (Pair p)
          (case map_of body p of None \<Rightarrow> None | Some v \<Rightarrow> cast F (schemaType s) v)) updateSchema"
    unfolding castUpdate_def
    by (rule arg_cong[where f="\<lambda>g. List.map_filter g updateSchema"])
       (auto simp: fun_eq_iff split: option.splits)
  then show ?thesis
    using map_of_map_filter[OF distinct_updateSchema,
        where f="\<lambda>p s. case map_of body p of None \<Rightarrow> None | Some v \<Rightarrow> cast F (schemaType s) v"]
    by simp
qed


lemma cast_errors_empty: "cast_errors F sch body = [] \<longleftrightarrow> castable F sch body"
  by (auto simp: cast_errors_def castable_def filter_empty_conv split: option.splits)

lemma validate_empty:
  "validate sch d = [] \<longleftrightarrow> (\<forall>(p, s)\<in>set sch. path_valid s (map_of d p))"
  by (auto simp: validate_def filter_empty_conv)

lemma duplicate_keys_empty:
  "duplicate_keys sch st d = [] \<longleftrightarrow>
     (\<forall>(p, s)\<in>set sch. unique s \<longrightarrow> (\<forall>d0\<in>set st. map_of d0 p \<noteq> map_of d p))"
  by (auto simp: duplicate_keys_def filter_empty_conv list_ex_iff)

lemma Ball_documentSchema:
  "(\<forall>(p, s)\<in>set (documentSchema gen). P p s) \<longleftrightarrow>
     P ''_id'' (idSpec\<lparr>defaultValue := Some (VId gen)\<rparr>) \<and>
     (\<forall>(p, s)\<in>set roomSchema. P p s) \<and>
     P ''createdAt'' (path SDate) \<and> P ''updatedAt'' (path SDate) \<and>
     P ''__v'' (path SNumber)"
  by (auto simp: documentSchema_def)

lemma roomSchema_facts:
  assumes "(p, s) \<in> set roomSchema"
  shows "required s \<Longrightarrow> path_default s = None"
    and "\<not> required s \<Longrightarrow> enumValues s = None"
    and "p \<noteq> ''_id''" and "p \<noteq> ''createdAt''" and "p \<noteq> ''updatedAt''"
    and "unique s \<longleftrightarrow> p = ''roomNumber''"
    and "p = ''roomNumber'' \<Longrightarrow> schemaType s = SString"
    and "p \<noteq> ''__v''"
  using assms by (auto simp: roomSchema_def path_def path_default_def)

lemma map_of_documentSchema_room:
  "(p, s) \<in> set roomSchema \<Longrightarrow> map_of (documentSchema gen) p = Some s"
  by (rule map_of_is_SomeI[OF distinct_documentSchema]) (simp add: documentSchema_def)

lemma map_of_documentSchema_other:
  "map_of (documentSchema gen) ''_id'' = Some (idSpec\<lparr>defaultValue := Some (VId gen)\<rparr>)"
  "map_of (documentSchema gen) ''createdAt'' = Some (path SDate)"
  "map_of (documentSchema gen) ''updatedAt'' = Some (path SDate)"
  "map_of (documentSchema gen) ''__v'' = Some (path SNumber)"
  by (simp_all add: documentSchema_def roomSchema_def)

lemma init_id: "init_path F (idSpec\<lparr>defaultValue := Some (VId gen)\<rparr>) (map_of body ''_id'') = new_id F gen body"
  by (simp add: init_path_def new_id_def path_default_def idSpec_def path_def split: option.splits)



lemma hexDigit_lowered: "hexDigit c \<Longrightarrow> lowerHex c \<in> set ''0123456789abcdef''"
  unfolding hexDigit_def lowerHex_def by (simp only: set_simps insert_iff empty_iff) (elim disjE; simp)



lemma isObjectId_lower: "hexString24 s \<Longrightarrow> isObjectId (map lowerHex s)"
  unfolding isObjectId_def hexString24_def
  by (simp add: list_all_iff hexDigit_lowered del: set_simps)

lemma cast_id_shape:
  "cast F SObjectId v = Some w \<Longrightarrow> w = VNull \<or> (\<exists>k. w = VId k \<and> isObjectId k)"
  by (cases v) (auto simp: cast_def accept_def isObjectId_lower split: if_splits option.splits elim: exact.elims)



lemma id_path_valid:
  "path_valid (idSpec\<lparr>defaultValue := Some (VId gen)\<rparr>) (new_id F gen body) \<longleftrightarrow>
     (\<exists>k. new_id F gen body = Some (VId k))"
proof
  assume "path_valid (idSpec\<lparr>defaultValue := Some (VId gen)\<rparr>) (new_id F gen body)"
  then obtain w where w: "new_id F gen body = Some w" "w \<noteq> VNull"
    by (auto simp: path_valid_def value_valid_def checkRequired_def idSpec_def path_def
             split: option.splits)
  then show "\<exists>k. new_id F gen body = Some (VId k)"
    using cast_id_shape[of F _ w] by (auto simp: new_id_def split: option.splits)
next
  assume "\<exists>k. new_id F gen body = Some (VId k)"
  then show "path_valid (idSpec\<lparr>defaultValue := Some (VId gen)\<rparr>) (new_id F gen body)"
    by (auto simp: path_valid_def value_valid_def checkRequired_def idSpec_def path_def)
qed

lemma plain_path_valid: "path_valid (path t) held"
  by (simp add: path_valid_def value_valid_def path_def split: option.splits)

lemma room_paths_valid:
  assumes c: "castable F (documentSchema gen) body"
  shows "(\<forall>(p, s)\<in>set roomSchema. path_valid s (init_path F s (map_of body p))) \<longleftrightarrow>
           has_required F body \<and> enum_ok F body"
proof (intro iffI conjI)
  assume v: "\<forall>(p, s)\<in>set roomSchema. path_valid s (init_path F s (map_of body p))"
  show "has_required F body"
    unfolding has_required_def
  proof (intro ballI, clarify)
    fix p s assume ps: "(p, s) \<in> set roomSchema" and r: "required s"
    from v ps have "path_valid s (init_path F s (map_of body p))" by auto
    with r roomSchema_facts(1)[OF ps r]
    show "\<exists>v w. map_of body p = Some v \<and> cast F (schemaType s) v = Some w \<and>
               checkRequired (schemaType s) w"
      by (auto simp: path_valid_def value_valid_def init_path_def split: option.splits)
  qed
  show "enum_ok F body"
    unfolding enum_ok_def
  proof (intro ballI, clarify)
    fix p s vs v w
    assume ps: "(p, s) \<in> set roomSchema" and e: "enumValues s = Some vs"
      and b: "map_of body p = Some v" and k: "cast F (schemaType s) v = Some w"
    from v ps have "path_valid s (init_path F s (map_of body p))" by auto
    with e b k show "w \<in> VStr ` set vs"
      by (auto simp: path_valid_def value_valid_def init_path_def)
  qed
next
  assume hr: "has_required F body \<and> enum_ok F body"
  show "\<forall>(p, s)\<in>set roomSchema. path_valid s (init_path F s (map_of body p))"
  proof (intro ballI, clarify)
    fix p s assume ps: "(p, s) \<in> set roomSchema"
    show "path_valid s (init_path F s (map_of body p))"
    proof (cases "required s")
      case True
      with hr ps obtain v w where vw: "map_of body p = Some v"
        "cast F (schemaType s) v = Some w" "checkRequired (schemaType s) w"
        unfolding has_required_def by blast
      moreover from hr ps vw have "\<And>vs. enumValues s = Some vs \<Longrightarrow> w \<in> VStr ` set vs"
        unfolding enum_ok_def by blast
      ultimately show ?thesis
        by (auto simp: path_valid_def value_valid_def init_path_def split: option.splits)
    next
      case False
      with roomSchema_facts(2)[OF ps] have "enumValues s = None" by simp
      with False show ?thesis
        by (auto simp: path_valid_def value_valid_def split: option.splits)
    qed
  qed
qed

lemma map_of_new_document:
  "map_of (construct_doc F (documentSchema gen) body) ''_id'' = new_id F gen body"
  "(p, s) \<in> set roomSchema \<Longrightarrow>
     map_of (construct_doc F (documentSchema gen) body) p = init_path F s (map_of body p)"
  "map_of (construct_doc F (documentSchema gen) body) ''createdAt'' =
     init_path F (path SDate) (map_of body ''createdAt'')"
  "map_of (construct_doc F (documentSchema gen) body) ''updatedAt'' =
     init_path F (path SDate) (map_of body ''updatedAt'')"
  "map_of (construct_doc F (documentSchema gen) body) ''__v'' =
     init_path F (path SNumber) (map_of body ''__v'')"
  by (simp_all add: map_of_construct[OF distinct_documentSchema] map_of_documentSchema_other
        map_of_documentSchema_room init_id)

lemma save_checks:
  "snd (new_Room F gen body) @ validate (documentSchema gen) (fst (new_Room F gen body)) = []
   \<longleftrightarrow> castable F (documentSchema gen) body \<and> has_required F body \<and> enum_ok F body \<and>
       (\<exists>k. new_id F gen body = Some (VId k))"
proof (cases "castable F (documentSchema gen) body")
  case False
  then show ?thesis by (simp add: new_Room_def cast_errors_empty)
next
  case True
  have "validate (documentSchema gen) (construct_doc F (documentSchema gen) body) = [] \<longleftrightarrow>
          (\<exists>k. new_id F gen body = Some (VId k)) \<and>
          (\<forall>(p, s)\<in>set roomSchema. path_valid s (init_path F s (map_of body p)))"
    unfolding validate_empty Ball_documentSchema
    by (auto simp: map_of_new_document id_path_valid plain_path_valid)
  with True room_paths_valid[OF True] show ?thesis
    by (auto simp: new_Room_def cast_errors_empty)
qed


lemma map_of_version:
  "p \<noteq> ''__v'' \<Longrightarrow> map_of (version d) p = map_of d p"
  "map_of (version d) ''__v'' = Some (VNum 0)"
  by (simp_all add: version_def update_conv')

lemma map_of_stamp:
  "p \<noteq> ''createdAt'' \<Longrightarrow> p \<noteq> ''updatedAt'' \<Longrightarrow> map_of (stamp now d) p = map_of d p"
  by (simp add: stamp_def Let_def update_conv')


lemma cast_shape: "cast F t v = Some w \<Longrightarrow> w = VNull \<or> exact t w"
  by (cases "v = VNull \<or> exact t v")
     (auto simp: cast_def accept_def isObjectId_lower split: if_splits option.splits stype.splits val.splits)


text \<open>Whatever is cast to a Number, and so every number a document is given, is a double.\<close>

lemma numbers_are_doubles: "cast F SNumber v = Some (VNum q) \<Longrightarrow> isDouble q"
  using cast_shape[of F SNumber v "VNum q"] by simp


lemma rn_in_schema:
  "(''roomNumber'', (path SString)\<lparr>required := True, unique := True\<rparr>) \<in> set roomSchema"
  by (simp add: roomSchema_def)

lemma save_duplicates:
  assumes "has_required F body"
  shows "duplicate_keys (documentSchema gen) st (version (stamp now (construct_doc F (documentSchema gen) body))) = []
         \<longleftrightarrow> unique_ok F gen st body"
proof -
  let ?d = "version (stamp now (construct_doc F (documentSchema gen) body))"
  let ?rn = "(path SString)\<lparr>required := True, unique := True\<rparr>"
  from assms rn_in_schema obtain v w where v: "map_of body ''roomNumber'' = Some v"
    unfolding has_required_def by fastforce
  have id: "map_of ?d ''_id'' = new_id F gen body"
    by (simp add: map_of_version map_of_stamp map_of_new_document)
  have rn: "map_of ?d ''roomNumber'' = cast F SString v"
    using map_of_new_document(2)[OF rn_in_schema] v
    by (simp add: map_of_version map_of_stamp init_path_def path_def)
  have "(\<forall>(p, s)\<in>set roomSchema. unique s \<longrightarrow> (\<forall>d0\<in>set st. map_of d0 p \<noteq> map_of ?d p)) \<longleftrightarrow>
        (\<forall>d0\<in>set st. map_of d0 ''roomNumber'' \<noteq> map_of ?d ''roomNumber'')"
    using rn_in_schema roomSchema_facts(6) by fastforce
  then show ?thesis
    unfolding duplicate_keys_empty Ball_documentSchema unique_ok_def
    by (simp add: id rn v idSpec_def path_def)
qed



lemma post_room_accepted:
  assumes "has_required F body" and "satisfies_schema F gen st body"
  shows "post_room F gen now st body =
           (\<lparr>status = 201, json = Room (version (stamp now (construct_doc F (documentSchema gen) body)))\<rparr>,
            st @ [version (stamp now (construct_doc F (documentSchema gen) body))])"
proof -
  from assms have "snd (new_Room F gen body) @
      validate (documentSchema gen) (fst (new_Room F gen body)) = []"
    using save_checks[of F gen body] by (simp add: satisfies_schema_def)
  moreover from assms have "duplicate_keys (documentSchema gen) st
      (version (stamp now (fst (new_Room F gen body)))) = []"
    by (simp add: new_Room_def save_duplicates satisfies_schema_def)
  ultimately show ?thesis
    by (simp add: post_room_def Room_save_def Let_def new_Room_def)
qed

lemma post_room_rejected:
  assumes "\<not> has_required F body \<or> \<not> satisfies_schema F gen st body"
  shows "\<exists>e. post_room F gen now st body =
           (\<lparr>status = 500, json = Failure ''Error creating room'' e\<rparr>, st)"
proof (cases "snd (new_Room F gen body) @
      validate (documentSchema gen) (fst (new_Room F gen body))")
  case (Cons p ps)
  then show ?thesis
    by (simp add: post_room_def Room_save_def Let_def)
next
  case Nil
  then have ok: "castable F (documentSchema gen) body" "has_required F body" "enum_ok F body"
    "\<exists>k. new_id F gen body = Some (VId k)"
    using save_checks[of F gen body] by simp_all
  with assms have "\<not> unique_ok F gen st body" by (auto simp: satisfies_schema_def)
  with ok(2) have "duplicate_keys (documentSchema gen) st
      (version (stamp now (fst (new_Room F gen body)))) \<noteq> []"
    by (simp add: new_Room_def save_duplicates)
  then obtain q qs where "duplicate_keys (documentSchema gen) st
      (version (stamp now (fst (new_Room F gen body)))) = q # qs"
    by (cases "duplicate_keys (documentSchema gen) st (version (stamp now (fst (new_Room F gen body))))") auto
  with Nil show ?thesis
    by (simp add: post_room_def Room_save_def Let_def)
qed






subsection \<open>Updating a document\<close>

lemma map_of_updateSchema: "(p, s) \<in> set updateSchema \<Longrightarrow> map_of updateSchema p = Some s"
  by (rule map_of_is_SomeI[OF distinct_updateSchema])

lemma castUpdate_known:
  "(p, s) \<in> set updateSchema \<Longrightarrow>
     map_of (castUpdate F body) p =
       (case map_of body p of None \<Rightarrow> None | Some v \<Rightarrow> cast F (schemaType s) v)"
  by (simp add: map_of_castUpdate map_of_updateSchema)





lemma updateValidators_empty:
  "updateValidators (castUpdate F body) = [] \<longleftrightarrow> update_valid F body"
proof -
  have "updateValidators (castUpdate F body) = [] \<longleftrightarrow>
          (\<forall>(p, s)\<in>set updateSchema. \<forall>w. map_of (castUpdate F body) p = Some w \<longrightarrow> value_valid s w)"
    by (auto simp: updateValidators_def filter_empty_conv split: option.splits)
  also have "\<dots> \<longleftrightarrow> update_valid F body"
    unfolding update_valid_def
    by (auto simp: castUpdate_known split: option.splits)
  finally show ?thesis .
qed



lemma map_replace_first:
  "List.find P xs = Some d \<Longrightarrow> f d' = f d \<Longrightarrow> map f (replace_first P d' xs) = map f xs"
  by (induction xs) (auto split: if_splits)



lemma find_SomeD: "List.find P xs = Some d \<Longrightarrow> d \<in> set xs \<and> P d"
  by (induction xs) (auto split: if_splits)



lemma update_cast_errors_empty:
  "update_cast_errors F body = [] \<longleftrightarrow> castable F updateSchema body"
proof
  assume "update_cast_errors F body = []"
  then have n: "\<And>k v s. (k, v) \<in> set body \<Longrightarrow> map_of body k = Some v \<Longrightarrow>
      map_of updateSchema k = Some s \<Longrightarrow> cast F (schemaType s) v \<noteq> None"
    by (fastforce simp: update_cast_errors_def filter_empty_conv)
  have "\<And>p s v. (p, s) \<in> set updateSchema \<Longrightarrow> map_of body p = Some v \<Longrightarrow>
      cast F (schemaType s) v \<noteq> None"
    using n map_of_SomeD map_of_updateSchema by fast
  then show "castable F updateSchema body"
    unfolding castable_def by fast
next
  assume c: "castable F updateSchema body"
  have "\<And>k v s. map_of body k = Some v \<Longrightarrow> map_of updateSchema k = Some s \<Longrightarrow>
      cast F (schemaType s) v \<noteq> None"
  proof -
    fix k v s
    assume v: "map_of body k = Some v" and s: "map_of updateSchema k = Some s"
    from s have "(k, s) \<in> set updateSchema" by (rule map_of_SomeD)
    with c v show "cast F (schemaType s) v \<noteq> None"
      unfolding castable_def by fast
  qed
  then have "\<And>k v. \<not> (map_of body k = Some v \<and>
      (case map_of updateSchema k of None \<Rightarrow> False
       | Some s \<Rightarrow> cast F (schemaType s) v = None))"
    by (simp split: option.splits)
  then show "update_cast_errors F body = []"
    by (simp add: update_cast_errors_def filter_empty_conv split_def)
qed

lemma put_room_bad_id:
  "castObjectId F ident = None \<Longrightarrow>
     put_room F U now st ident body =
       (\<lparr>status = 500, json = Failure ''Error updating room'' (CastError ''_id'')\<rparr>, st)"
  by (simp add: put_room_def Room_findByIdAndUpdate_def)

lemma put_room_rejected:
  assumes "castObjectId F ident = Some w" and "plain_update body"
    and "\<not> update_passes F body"
  shows "\<exists>e. put_room F U now st ident body =
           (\<lparr>status = 500, json = Failure ''Error updating room'' e\<rparr>, st)"
proof (cases "update_cast_errors F body")
  case (Cons p ps)
  with assms(1,2) show ?thesis
    by (simp add: put_room_def Room_findByIdAndUpdate_def plainUpdate_def)
next
  case Nil
  with assms(3) have "updateValidators (castUpdate F body) \<noteq> []"
    by (simp add: updateValidators_empty update_passes_def update_cast_errors_empty[symmetric])
  then obtain q qs where "updateValidators (castUpdate F body) = q # qs"
    by (cases "updateValidators (castUpdate F body)") auto
  with assms(1,2) Nil show ?thesis
    by (simp add: put_room_def Room_findByIdAndUpdate_def plainUpdate_def)
qed

lemma put_room_passes:
  assumes "castObjectId F ident = Some w" and "plain_update body"
    and "update_passes F body"
  shows "put_room F U now st ident body =
     (case List.find (has_id w) st of
        None \<Rightarrow> (\<lparr>status = 404, json = Message ''Room not found''\<rparr>, st)
      | Some d \<Rightarrow>
          if \<not> has_id w (apply_update now (castUpdate F body) d)
          then (\<lparr>status = 500,
                 json = Failure ''Error updating room'' (ImmutableField ''_id'')\<rparr>, st)
          else case update_conflicts (castUpdate F body) (delete_first (has_id w) st)
                      (apply_update now (castUpdate F body) d) of
                 [] \<Rightarrow> (\<lparr>status = 200, json = Room (apply_update now (castUpdate F body) d)\<rparr>,
                        replace_first (has_id w) (apply_update now (castUpdate F body) d) st)
               | p # ps \<Rightarrow>
                   (\<lparr>status = 500, json = Failure ''Error updating room'' (DuplicateKey p)\<rparr>,
                    st))"
proof -
  from assms(3) have "update_cast_errors F body = []"
    and "updateValidators (castUpdate F body) = []"
    by (simp_all add: update_passes_def update_cast_errors_empty updateValidators_empty)
  with assms(1,2) show ?thesis
    by (simp add: put_room_def Room_findByIdAndUpdate_def plainUpdate_def Let_def
             split: option.splits list.splits)
qed


lemma operatorUpdate_store:
  "snd (operatorUpdate U st w body) = st \<or>
   (\<exists>d d'. List.find (has_id w) st = Some d \<and> has_id w d' \<and>
      snd (operatorUpdate U st w body) = replace_first (has_id w) d' st)"
  by (auto simp: operatorUpdate_def split: sum.splits option.splits)

lemma put_room_operators:
  "castObjectId F ident = Some w \<Longrightarrow> \<not> plain_update body \<Longrightarrow>
     snd (put_room F U now st ident body) = snd (operatorUpdate U st w body)"
  by (simp add: put_room_def Room_findByIdAndUpdate_def split: prod.splits sum.splits option.splits)

lemma put_room_store:
  "snd (put_room F U now st ident body) = st \<or>
   (\<exists>w d d'. List.find (has_id w) st = Some d \<and> has_id w d' \<and>
      snd (put_room F U now st ident body) = replace_first (has_id w) d' st)"
proof (cases "castObjectId F ident")
  case None
  from put_room_bad_id[OF None, of U now st body] show ?thesis by simp
next
  case (Some w)
  show ?thesis
  proof (cases "plain_update body")
    case False
    from operatorUpdate_store[of U st w body] show ?thesis
      unfolding put_room_operators[OF Some False] by auto
  next
    case plain: True
    show ?thesis
    proof (cases "update_passes F body")
      case False
      from put_room_rejected[OF Some plain False, of U now st] show ?thesis by auto
    next
      case True
      show ?thesis
        unfolding put_room_passes[OF Some plain True, of U now st]
        by (auto split: option.splits if_splits list.splits)
    qed
  qed
qed

subsection \<open>The identifiers of the collection\<close>

lemma wf_store_ids:
  "wf_store st \<longleftrightarrow>
     distinct (map (\<lambda>d. map_of d ''_id'') st) \<and>
     (\<forall>x\<in>set (map (\<lambda>d. map_of d ''_id'') st). \<exists>k. x = Some (VId k))"
  by (auto simp: wf_store_def unique_ids_def)

lemma delete_first_sub:
  "set (delete_first P xs) \<subseteq> set xs"
  by (induction xs) auto

lemma distinct_delete_first:
  "distinct (map f xs) \<Longrightarrow> distinct (map f (delete_first P xs))"
proof (induction xs)
  case Nil
  then show ?case by simp
next
  case (Cons x xs)
  then show ?case using delete_first_sub[of P xs] by auto
qed

lemma wf_store_delete_first: "wf_store st \<Longrightarrow> wf_store (delete_first P st)"
  unfolding wf_store_def unique_ids_def
  using delete_first_sub[of P st] by (auto simp: distinct_delete_first)

lemma delete_room_store:
  "snd (delete_room F st ident) = st \<or>
   (\<exists>w. snd (delete_room F st ident) = delete_first (has_id w) st)"
  by (auto simp: delete_room_def Room_findByIdAndDelete_def split: option.splits)

lemma post_room_store:
  "snd (post_room F gen now st body) = st \<or>
   (\<exists>d k. snd (post_room F gen now st body) = st @ [d] \<and>
      map_of d ''_id'' = new_id F gen body \<and> new_id F gen body = Some (VId k) \<and>
      (\<forall>d0\<in>set st. map_of d0 ''_id'' \<noteq> map_of d ''_id''))"
proof (cases "has_required F body \<and> satisfies_schema F gen st body")
  case False
  then have "\<not> has_required F body \<or> \<not> satisfies_schema F gen st body" by simp
  from post_room_rejected[OF this, of now] show ?thesis by auto
next
  case True
  let ?d = "version (stamp now (construct_doc F (documentSchema gen) body))"
  from True obtain k where k: "new_id F gen body = Some (VId k)"
    by (auto simp: satisfies_schema_def)
  have id: "map_of ?d ''_id'' = new_id F gen body"
    by (simp add: map_of_version map_of_stamp map_of_new_document)
  from True have "\<forall>d0\<in>set st. map_of d0 ''_id'' \<noteq> new_id F gen body"
    by (simp add: satisfies_schema_def unique_ok_def)
  with True post_room_accepted[of F body gen st now] id k show ?thesis
    by auto
qed

section \<open>Get by identifier\<close>

text \<open>
  C1, as amended. A Get-by-identifier request is answered in one of three ways.
  When the identifier does not cast to an ObjectId, \<open>findById\<close> rejects and the handler's
  \<open>catch\<close> answers 500 with the message \<open>Error retrieving room\<close> (not 404).
  When it casts and no stored entity has it, the answer is 404 with the message
  \<open>Room not found\<close>. When it casts and a stored entity has it, the answer is 200 with
  such an entity.
\<close>

theorem get_room_cases:
  "(castObjectId F ident = None \<longrightarrow>
      get_room F st ident =
        \<lparr>status = 500, json = Failure ''Error retrieving room'' (CastError ''_id'')\<rparr>) \<and>
   (\<forall>w. castObjectId F ident = Some w \<and> (\<forall>d\<in>set st. \<not> has_id w d) \<longrightarrow>
      get_room F st ident = \<lparr>status = 404, json = Message ''Room not found''\<rparr>) \<and>
   (\<forall>w. castObjectId F ident = Some w \<and> (\<exists>d\<in>set st. has_id w d) \<longrightarrow>
      (\<exists>d\<in>set st. has_id w d \<and> get_room F st ident = \<lparr>status = 200, json = Room d\<rparr>))"
proof (intro conjI allI impI)
  assume "castObjectId F ident = None"
  then show "get_room F st ident =
        \<lparr>status = 500, json = Failure ''Error retrieving room'' (CastError ''_id'')\<rparr>"
    by (simp add: get_room_def Room_findById_def)
next
  fix w assume "castObjectId F ident = Some w \<and> (\<forall>d\<in>set st. \<not> has_id w d)"
  then show "get_room F st ident = \<lparr>status = 404, json = Message ''Room not found''\<rparr>"
    by (simp add: get_room_def Room_findById_def find_has_id_None)
next
  fix w assume a: "castObjectId F ident = Some w \<and> (\<exists>d\<in>set st. has_id w d)"
  then obtain d where "d \<in> set st" "has_id w d" "List.find (has_id w) st = Some d"
    using find_has_id_Some by blast
  with a show "\<exists>d\<in>set st. has_id w d \<and> get_room F st ident = \<lparr>status = 200, json = Room d\<rparr>"
    by (auto simp add: get_room_def Room_findById_def)
qed

text \<open>
  The three cases on a collection that holds \<open>exampleRoom\<close>: a malformed identifier,
  a well-formed one that no entity has, and the identifier of \<open>exampleRoom\<close>.
\<close>

theorem get_room_cases_witness:
  "get_room noCoercion [exampleRoom] ''abc'' =
     \<lparr>status = 500, json = Failure ''Error retrieving room'' (CastError ''_id'')\<rparr> \<and>
   get_room noCoercion [exampleRoom] otherId =
     \<lparr>status = 404, json = Message ''Room not found''\<rparr> \<and>
   get_room noCoercion [exampleRoom] exampleId = \<lparr>status = 200, json = Room exampleRoom\<rparr>"
proof -
  note cases = get_room_cases[of noCoercion _ "[exampleRoom]"]
  have "castObjectId noCoercion ''abc'' = None"
    by code_simp
  with cases[of "''abc''"] have a: "get_room noCoercion [exampleRoom] ''abc'' =
     \<lparr>status = 500, json = Failure ''Error retrieving room'' (CastError ''_id'')\<rparr>"
    by blast
  have "castObjectId noCoercion otherId = Some (VId otherId) \<and>
        (\<forall>d\<in>set [exampleRoom]. \<not> has_id (VId otherId) d)"
    by code_simp
  with cases[of otherId] have b: "get_room noCoercion [exampleRoom] otherId =
     \<lparr>status = 404, json = Message ''Room not found''\<rparr>"
    by blast
  have "castObjectId noCoercion exampleId = Some (VId exampleId) \<and>
        (\<exists>d\<in>set [exampleRoom]. has_id (VId exampleId) d)"
    by code_simp
  with cases[of exampleId] have c: "get_room noCoercion [exampleRoom] exampleId =
     \<lparr>status = 200, json = Room exampleRoom\<rparr>"
    by auto
  from a b c show ?thesis by blast
qed

text \<open>
  C1 as stated fails: \<open>abc\<close> is no key of the store (no string of three characters is
  an ObjectId, whatever the library converts), and the answer is 500, not 404.
\<close>

theorem get_room_malformed_id:
  "\<not> hexString24 ''abc'' \<and>
   get_room noCoercion [exampleRoom] ''abc'' =
     \<lparr>status = 500, json = Failure ''Error retrieving room'' (CastError ''_id'')\<rparr>"
  by code_simp

section \<open>List\<close>

text \<open>
  C10. In a List request that gives \<open>available\<close>, the value \<open>true\<close> selects the entities
  whose \<open>isAvailable\<close> is true, and every other value (\<open>false\<close>, \<open>True\<close>, \<open>1\<close>, the empty
  string) selects the entities whose \<open>isAvailable\<close> is false; the \<open>type\<close> parameter
  filters as it does without \<open>available\<close>.
\<close>

theorem available_filter:
  "(a = ''true'' \<longrightarrow>
      get_rooms st (Some a) type' =
        \<lparr>status = 200,
         json = Rooms (filter (\<lambda>d. map_of d ''isAvailable'' = Some (VBool True) \<and>
                                   selected None type' d) st)\<rparr>) \<and>
   (a \<noteq> ''true'' \<longrightarrow>
      get_rooms st (Some a) type' =
        \<lparr>status = 200,
         json = Rooms (filter (\<lambda>d. map_of d ''isAvailable'' = Some (VBool False) \<and>
                                   selected None type' d) st)\<rparr>)"
  by (simp add: get_rooms_selected selected_def[abs_def] available_selects_def)

text \<open>The values \<open>true\<close>, \<open>True\<close> and the empty string on a collection of two rooms.\<close>

theorem available_filter_witness:
  "get_rooms [exampleRoom, bookedRoom] (Some ''true'') None =
     \<lparr>status = 200, json = Rooms [exampleRoom]\<rparr> \<and>
   get_rooms [exampleRoom, bookedRoom] (Some ''True'') None =
     \<lparr>status = 200, json = Rooms [bookedRoom]\<rparr> \<and>
   get_rooms [exampleRoom, bookedRoom] (Some '''') None =
     \<lparr>status = 200, json = Rooms [bookedRoom]\<rparr>"
proof -
  note f = available_filter[of _ "[exampleRoom, bookedRoom]" None]
  have t: "''true'' = ''true''" and u: "''True'' \<noteq> ''true''" and e: "'''' \<noteq> ''true''"
    by simp_all
  have sel: "filter (\<lambda>d. map_of d ''isAvailable'' = Some (VBool True) \<and> selected None None d)
               [exampleRoom, bookedRoom] = [exampleRoom]"
       "filter (\<lambda>d. map_of d ''isAvailable'' = Some (VBool False) \<and> selected None None d)
               [exampleRoom, bookedRoom] = [bookedRoom]"
    by (simp_all add: selected_def exampleRoom_def bookedRoom_def)
  from f[of "''true''"] t f[of "''True''"] u f[of "''''"] e show ?thesis
    unfolding sel by blast
qed

text \<open>
  C4, as amended. A List request is answered 200 with exactly the stored entities that
  the filter selects, in the order of the collection and as they are stored:
  \<open>available\<close>, when given, selects by \<open>isAvailable\<close> as in C10; \<open>type\<close> selects the
  entities of that type when it is given and not empty, and an empty \<open>type\<close> selects
  every entity, as an absent one does. When the filter selects nothing, the answer is
  200 with the empty array.
\<close>

theorem list_rooms:
  "get_rooms st available type' =
     \<lparr>status = 200, json = Rooms (filter (selected available type') st)\<rparr> \<and>
   ((\<forall>d\<in>set st. \<not> selected available type' d) \<longrightarrow>
      get_rooms st available type' = \<lparr>status = 200, json = Rooms []\<rparr>)"
  by (simp add: get_rooms_selected filter_empty_conv)

text \<open>Both filters, no filter, and a filter that selects nothing.\<close>

theorem list_rooms_witness:
  "get_rooms [exampleRoom, bookedRoom] (Some ''false'') (Some ''suite'') =
     \<lparr>status = 200, json = Rooms [bookedRoom]\<rparr> \<and>
   get_rooms [exampleRoom, bookedRoom] None None =
     \<lparr>status = 200, json = Rooms [exampleRoom, bookedRoom]\<rparr> \<and>
   get_rooms [exampleRoom, bookedRoom] (Some ''true'') (Some ''suite'') =
     \<lparr>status = 200, json = Rooms []\<rparr>"
proof -
  have a: "filter (selected (Some ''false'') (Some ''suite'')) [exampleRoom, bookedRoom] =
             [bookedRoom]"
    and b: "filter (selected None None) [exampleRoom, bookedRoom] = [exampleRoom, bookedRoom]"
    and c: "\<forall>d\<in>set [exampleRoom, bookedRoom]. \<not> selected (Some ''true'') (Some ''suite'') d"
    by (simp_all add: selected_def available_selects_def type_selects_def
          exampleRoom_def bookedRoom_def)
  from list_rooms[of "[exampleRoom, bookedRoom]" "Some ''false''" "Some ''suite''"]
       list_rooms[of "[exampleRoom, bookedRoom]" None None]
       list_rooms[of "[exampleRoom, bookedRoom]" "Some ''true''" "Some ''suite''"] c
  show ?thesis unfolding a b by blast
qed

text \<open>
  C4 as stated fails for the empty \<open>type\<close>: the request gives the filter \<open>type=\<close>, no
  stored entity has the empty type, and the answer holds \<open>exampleRoom\<close>.
\<close>

theorem list_rooms_empty_type:
  "get_rooms [exampleRoom] None (Some '''') = \<lparr>status = 200, json = Rooms [exampleRoom]\<rparr> \<and>
   map_of exampleRoom ''type'' \<noteq> Some (VStr '''')"
  by code_simp

section \<open>Delete\<close>

text \<open>
  C8, as amended. On a collection whose identifiers are distinct, a Delete request is
  answered in one of three ways. When the identifier does not cast to an ObjectId, the
  answer is 500 with the message \<open>Error deleting room\<close> (not 404) and nothing changes.
  When it casts and no stored entity has it, the answer is 404 and nothing changes.
  When a stored entity has it, the answer is 200 with a message and the entity as it
  was, the collection afterwards holds the other entities and only them, and a Get
  with the same identifier is then answered 404.
\<close>

theorem delete_room_cases:
  assumes "unique_ids st"
  shows
  "(castObjectId F ident = None \<longrightarrow>
      delete_room F st ident =
        (\<lparr>status = 500, json = Failure ''Error deleting room'' (CastError ''_id'')\<rparr>, st)) \<and>
   (\<forall>w. castObjectId F ident = Some w \<and> (\<forall>d\<in>set st. \<not> has_id w d) \<longrightarrow>
      delete_room F st ident = (\<lparr>status = 404, json = Message ''Room not found''\<rparr>, st)) \<and>
   (\<forall>w d. castObjectId F ident = Some w \<and> d \<in> set st \<and> has_id w d \<longrightarrow>
      delete_room F st ident =
        (\<lparr>status = 200, json = Deleted ''Room deleted successfully'' d\<rparr>,
         filter (\<lambda>x. x \<noteq> d) st) \<and>
      get_room F (filter (\<lambda>x. x \<noteq> d) st) ident =
        \<lparr>status = 404, json = Message ''Room not found''\<rparr>)"
proof (intro conjI allI impI)
  assume "castObjectId F ident = None"
  then show "delete_room F st ident =
        (\<lparr>status = 500, json = Failure ''Error deleting room'' (CastError ''_id'')\<rparr>, st)"
    by (simp add: delete_room_def Room_findByIdAndDelete_def)
next
  fix w assume "castObjectId F ident = Some w \<and> (\<forall>d\<in>set st. \<not> has_id w d)"
  then show "delete_room F st ident = (\<lparr>status = 404, json = Message ''Room not found''\<rparr>, st)"
    by (simp add: delete_room_def Room_findByIdAndDelete_def find_has_id_None)
next
  fix w d assume a: "castObjectId F ident = Some w \<and> d \<in> set st \<and> has_id w d"
  with assms have f: "List.find (has_id w) st = Some d"
    and g: "delete_first (has_id w) st = filter (\<lambda>x. x \<noteq> d) st"
    by (simp_all add: unique_find unique_delete_first)
  from a f g show "delete_room F st ident =
        (\<lparr>status = 200, json = Deleted ''Room deleted successfully'' d\<rparr>,
         filter (\<lambda>x. x \<noteq> d) st)"
    by (simp add: delete_room_def Room_findByIdAndDelete_def)
  from assms a have "\<forall>x\<in>set (filter (\<lambda>x. x \<noteq> d) st). \<not> has_id w x"
    using unique_others by auto
  with a show "get_room F (filter (\<lambda>x. x \<noteq> d) st) ident =
        \<lparr>status = 404, json = Message ''Room not found''\<rparr>"
    by (simp add: get_room_def Room_findById_def find_has_id_None)
qed

text \<open>
  The three cases: a malformed identifier, a well-formed one that no entity has, and the
  identifier of \<open>exampleRoom\<close>, which is then gone.
\<close>

theorem delete_room_cases_witness:
  "delete_room noCoercion [exampleRoom, bookedRoom] ''abc'' =
     (\<lparr>status = 500, json = Failure ''Error deleting room'' (CastError ''_id'')\<rparr>,
      [exampleRoom, bookedRoom]) \<and>
   delete_room noCoercion [exampleRoom] otherId =
     (\<lparr>status = 404, json = Message ''Room not found''\<rparr>, [exampleRoom]) \<and>
   delete_room noCoercion [exampleRoom, bookedRoom] exampleId =
     (\<lparr>status = 200, json = Deleted ''Room deleted successfully'' exampleRoom\<rparr>,
      [bookedRoom]) \<and>
   get_room noCoercion [bookedRoom] exampleId =
     \<lparr>status = 404, json = Message ''Room not found''\<rparr>"
proof -
  have u2: "unique_ids [exampleRoom, bookedRoom]" and u1: "unique_ids [exampleRoom]"
    by (simp_all add: unique_ids_def exampleRoom_def bookedRoom_def)
  have "castObjectId noCoercion ''abc'' = None"
    by code_simp
  with delete_room_cases[OF u2, of noCoercion "''abc''"]
  have a: "delete_room noCoercion [exampleRoom, bookedRoom] ''abc'' =
     (\<lparr>status = 500, json = Failure ''Error deleting room'' (CastError ''_id'')\<rparr>,
      [exampleRoom, bookedRoom])"
    by blast
  have "castObjectId noCoercion otherId = Some (VId otherId) \<and>
        (\<forall>d\<in>set [exampleRoom]. \<not> has_id (VId otherId) d)"
    by code_simp
  with delete_room_cases[OF u1, of noCoercion otherId]
  have b: "delete_room noCoercion [exampleRoom] otherId =
     (\<lparr>status = 404, json = Message ''Room not found''\<rparr>, [exampleRoom])"
    by blast
  have "castObjectId noCoercion exampleId = Some (VId exampleId) \<and>
        exampleRoom \<in> set [exampleRoom, bookedRoom] \<and> has_id (VId exampleId) exampleRoom"
    by code_simp
  with delete_room_cases[OF u2, of noCoercion exampleId]
  have "delete_room noCoercion [exampleRoom, bookedRoom] exampleId =
        (\<lparr>status = 200, json = Deleted ''Room deleted successfully'' exampleRoom\<rparr>,
         filter (\<lambda>x. x \<noteq> exampleRoom) [exampleRoom, bookedRoom]) \<and>
      get_room noCoercion (filter (\<lambda>x. x \<noteq> exampleRoom) [exampleRoom, bookedRoom]) exampleId =
        \<lparr>status = 404, json = Message ''Room not found''\<rparr>"
    by blast
  moreover have "filter (\<lambda>x. x \<noteq> exampleRoom) [exampleRoom, bookedRoom] = [bookedRoom]"
    by (simp add: exampleRoom_def bookedRoom_def)
  ultimately show ?thesis using a b by simp
qed

text \<open>
  C8 as stated fails: no entity has the identifier \<open>abc\<close>, and the Delete request is
  answered 500, not 404.
\<close>

theorem delete_room_malformed_id:
  "\<not> hexString24 ''abc'' \<and>
   delete_room noCoercion [exampleRoom] ''abc'' =
     (\<lparr>status = 500, json = Failure ''Error deleting room'' (CastError ''_id'')\<rparr>,
      [exampleRoom])"
  by code_simp

section \<open>Create\<close>







text \<open>
  C5. A Create request whose payload lacks a required field or violates a constraint of
  the schema (a value that does not cast to the type of its path, a type outside the
  enumeration, a \<open>roomNumber\<close> or an \<open>_id\<close> that a stored entity holds) is answered
  500, not 400, with a JSON body that has a message, and the collection is as it was.
\<close>

theorem create_rejected:
  assumes "\<not> has_required F body \<or> violates_schema F gen st body"
  shows "status (fst (post_room F gen now st body)) = 500 \<and>
         message (json (fst (post_room F gen now st body))) = Some ''Error creating room'' \<and>
         snd (post_room F gen now st body) = st"
proof -
  from assms have "\<not> has_required F body \<or> \<not> satisfies_schema F gen st body"
    by (auto simp: violates_schema_def satisfies_schema_def)
  from post_room_rejected[OF this, of now] show ?thesis by auto
qed

text \<open>
  A payload without \<open>roomNumber\<close>, a payload whose type is outside the enumeration, and
  a payload whose \<open>roomNumber\<close> a stored entity holds.
\<close>

theorem create_rejected_witness:
  "status (fst (post_room noCoercion exampleId 1 [bookedRoom] (tl examplePayload))) = 500 \<and>
   message (json (fst (post_room noCoercion exampleId 1 [bookedRoom] (tl examplePayload)))) =
     Some ''Error creating room'' \<and>
   snd (post_room noCoercion exampleId 1 [bookedRoom] (tl examplePayload)) = [bookedRoom] \<and>
   status (fst (post_room noCoercion exampleId 1 [bookedRoom]
                  ((''type'', VStr ''penthouse'') # examplePayload))) = 500 \<and>
   snd (post_room noCoercion exampleId 1 [bookedRoom]
          ((''type'', VStr ''penthouse'') # examplePayload)) = [bookedRoom] \<and>
   status (fst (post_room noCoercion thirdId 1 [exampleRoom] examplePayload)) = 500 \<and>
   snd (post_room noCoercion thirdId 1 [exampleRoom] examplePayload) = [exampleRoom]"
proof -
  have "\<not> has_required noCoercion (tl examplePayload)"
    by (simp add: has_required_def roomSchema_def examplePayload_def path_def)
  then have a: "\<not> has_required noCoercion (tl examplePayload) \<or>
      violates_schema noCoercion exampleId [bookedRoom] (tl examplePayload)"
    by simp
  have "\<not> enum_ok noCoercion ((''type'', VStr ''penthouse'') # examplePayload)"
    by (simp add: enum_ok_def roomSchema_def path_def cast_def)
  then have b: "\<not> has_required noCoercion ((''type'', VStr ''penthouse'') # examplePayload) \<or>
      violates_schema noCoercion exampleId [bookedRoom]
        ((''type'', VStr ''penthouse'') # examplePayload)"
    by (simp add: violates_schema_def)
  have "\<not> unique_ok noCoercion thirdId [exampleRoom] examplePayload"
    by (simp add: unique_ok_def examplePayload_def exampleRoom_def cast_def)
  then have c: "\<not> has_required noCoercion examplePayload \<or>
      violates_schema noCoercion thirdId [exampleRoom] examplePayload"
    by (simp add: violates_schema_def)
  from create_rejected[OF a, of 1] create_rejected[OF b, of 1] create_rejected[OF c, of 1]
  show ?thesis by simp
qed

section \<open>Update\<close>







section \<open>Identifiers\<close>

text \<open>
  C9, as amended. In a collection where every entity has an ObjectId and no two
  entities have the same, every Create, Update and Delete request leaves a collection
  of that kind. A Create request (whose payload gives no \<open>null\<close> for \<open>_id\<close>) leaves
  the collection as it was or appends one entity, whose identifier is the payload's
  \<open>_id\<close> (cast to an ObjectId) when the payload gives one and the generated ObjectId
  otherwise. An Update request, whatever its payload (plain or with operators), leaves
  the identifiers of the collection as they were, entity by entity.
\<close>

theorem identifiers_kept:
  assumes "wf_store st"
  shows "wf_store (snd (post_room F gen now st body)) \<and>
         (new_id F gen body \<noteq> Some VNull \<longrightarrow>
          snd (post_room F gen now st body) = st \<or>
          (\<exists>d. snd (post_room F gen now st body) = st @ [d] \<and>
               map_of d ''_id'' = new_id F gen body)) \<and>
         wf_store (snd (put_room F U now st ident body)) \<and>
         map (\<lambda>d. map_of d ''_id'') (snd (put_room F U now st ident body)) =
           map (\<lambda>d. map_of d ''_id'') st \<and>
         wf_store (snd (delete_room F st ident))"
proof (intro conjI)
  from post_room_store[of F gen now st body]
  show "wf_store (snd (post_room F gen now st body))"
  proof (elim disjE exE conjE)
    fix d k
    assume s: "snd (post_room F gen now st body) = st @ [d]"
      and i: "map_of d ''_id'' = new_id F gen body" "new_id F gen body = Some (VId k)"
      and n: "\<forall>d0\<in>set st. map_of d0 ''_id'' \<noteq> map_of d ''_id''"
    from n have "map_of d ''_id'' \<notin> set (map (\<lambda>d. map_of d ''_id'') st)" by auto
    with assms i show ?thesis
      unfolding s wf_store_ids by simp
  qed (simp add: assms)
  from post_room_store[of F gen now st body]
  show "new_id F gen body \<noteq> Some VNull \<longrightarrow>
          snd (post_room F gen now st body) = st \<or>
          (\<exists>d. snd (post_room F gen now st body) = st @ [d] \<and>
               map_of d ''_id'' = new_id F gen body)"
    by auto
  from put_room_store[of F U now st ident body]
  show ids: "map (\<lambda>d. map_of d ''_id'') (snd (put_room F U now st ident body)) =
           map (\<lambda>d. map_of d ''_id'') st"
  proof (elim disjE exE conjE)
    fix w d d'
    assume f: "List.find (has_id w) st = Some d" and k: "has_id w d'"
      and s: "snd (put_room F U now st ident body) = replace_first (has_id w) d' st"
    from find_SomeD[OF f] k have "map_of d' ''_id'' = map_of d ''_id''"
      by (simp add: has_id_def)
    with f show ?thesis
      unfolding s by (rule map_replace_first[where f="\<lambda>d. map_of d ''_id''"])
  qed simp
  from assms show "wf_store (snd (put_room F U now st ident body))"
    unfolding wf_store_ids ids .
  from delete_room_store[of F st ident] assms
  show "wf_store (snd (delete_room F st ident))"
    by (auto simp: wf_store_delete_first)
qed

text \<open>
  A Create, an Update and a Delete request on collections of one and two rooms.
\<close>

theorem identifiers_kept_witness:
  "wf_store [exampleRoom, bookedRoom] \<and>
   snd (post_room noCoercion thirdId 2 [exampleRoom] bookedPayload) = [exampleRoom, bookedRoom] \<and>
   map_of bookedRoom ''_id'' = new_id noCoercion thirdId bookedPayload \<and>
   wf_store [repricedRoom, bookedRoom] \<and>
   map (\<lambda>d. map_of d ''_id'') [repricedRoom, bookedRoom] =
     map (\<lambda>d. map_of d ''_id'') [exampleRoom, bookedRoom] \<and>
   wf_store [bookedRoom]"
proof -
  have wf1: "wf_store [exampleRoom]" and wf2: "wf_store [exampleRoom, bookedRoom]"
    by (simp_all add: wf_store_def unique_ids_def exampleRoom_def bookedRoom_def)
  have post: "snd (post_room noCoercion thirdId 2 [exampleRoom] bookedPayload) =
                [exampleRoom, bookedRoom]"
    by code_simp
  have put: "snd (put_room noCoercion noOperators 5 [exampleRoom, bookedRoom] exampleId
                    [(''price'', VNum 200)]) = [repricedRoom, bookedRoom]"
    by code_simp
  have del: "snd (delete_room noCoercion [exampleRoom, bookedRoom] exampleId) = [bookedRoom]"
    by code_simp
  have n: "new_id noCoercion thirdId bookedPayload \<noteq> Some VNull"
    by (simp add: new_id_def bookedPayload_def cast_def hexString24_def hexDigit_def)
  from identifiers_kept[OF wf1, where F = noCoercion and gen = thirdId and now = 2
      and body = bookedPayload]
  have a: "wf_store [exampleRoom, bookedRoom]"
    and "new_id noCoercion thirdId bookedPayload \<noteq> Some VNull \<longrightarrow>
          [exampleRoom, bookedRoom] = [exampleRoom] \<or>
          (\<exists>d. [exampleRoom, bookedRoom] = [exampleRoom] @ [d] \<and>
               map_of d ''_id'' = new_id noCoercion thirdId bookedPayload)"
    unfolding post by simp_all
  with n have i: "map_of bookedRoom ''_id'' = new_id noCoercion thirdId bookedPayload"
    by simp
  from identifiers_kept[OF wf2, where F = noCoercion and U = noOperators and now = 5
      and ident = exampleId and body = "[(''price'', VNum 200)]"]
  have b: "wf_store [repricedRoom, bookedRoom] \<and>
           map (\<lambda>d. map_of d ''_id'') [repricedRoom, bookedRoom] =
             map (\<lambda>d. map_of d ''_id'') [exampleRoom, bookedRoom]"
    unfolding put by simp
  from identifiers_kept[OF wf2, where F = noCoercion and ident = exampleId]
  have c: "wf_store [bookedRoom]"
    unfolding del by simp
  from a post i b c show ?thesis by simp
qed

text \<open>
  C9 as stated fails: the identifier of the created entity is the payload's \<open>_id\<close>,
  not the generated \<open>thirdId\<close>.
\<close>

theorem identifier_from_payload:
  "post_room noCoercion thirdId 2 [exampleRoom] bookedPayload =
     (\<lparr>status = 201, json = Room bookedRoom\<rparr>, [exampleRoom, bookedRoom]) \<and>
   map_of bookedPayload ''_id'' = Some (VStr otherId) \<and>
   map_of bookedRoom ''_id'' = Some (VId otherId) \<and>
   otherId \<noteq> thirdId"
  by code_simp

end
